theory Spec2Isabelle
  imports Complex_Main "HOL-Library.Sublist" "HOL-Library.AList"
begin

section \<open>Python values used throughout\<close>

text \<open>
  Strings are lists of characters; \<open>length\<close> is Python's \<open>len\<close>. Every exception the
  modelled code can raise is a value of \<open>error\<close>; a call that may raise returns
  \<open>error + 'a\<close> with \<open>Inl\<close> for the exception.
\<close>

datatype error =
    EmbeddingError    \<comment> \<open>\<open>client.embeddings.create\<close> raised\<close>
  | DatastoreError    \<comment> \<open>\<open>supabase.table(..).select(..).execute()\<close> raised\<close>
  | VectorError       \<comment> \<open>\<open>json.loads\<close>, \<open>np.array\<close> or \<open>np.dot\<close> raised on a stored embedding\<close>
  | GenerationError   \<comment> \<open>\<open>client.chat.completions.create\<close> (or reading its reply) raised\<close>

text \<open>\<open>str(n)\<close> for a non-negative integer, as the f-strings print it.\<close>

fun show_nat :: "nat \<Rightarrow> string" where
  "show_nat n =
     (if n < 10 then [char_of (48 + n)]
      else show_nat (n div 10) @ [char_of (48 + n mod 10)])"

declare show_nat.simps [simp del]

definition show_int :: "int \<Rightarrow> string" where
  "show_int i = (if i < 0 then CHR ''-'' # show_nat (nat (- i)) else show_nat (nat i))"

text \<open>
  \<open>str.isspace\<close> on the code points below 256: tab to carriage return, the four
  separators 28 to 31, the space, NEL and the no-break space.
\<close>

definition is_space :: "char \<Rightarrow> bool" where
  "is_space c =
     (let n = (of_char c :: nat)
      in (9 \<le> n \<and> n \<le> 13) \<or> (28 \<le> n \<and> n \<le> 32) \<or> n = 133 \<or> n = 160)"

text \<open>\<open>s.strip()\<close>\<close>

definition strip :: "string \<Rightarrow> string" where
  "strip s = rev (dropWhile is_space (rev (dropWhile is_space s)))"

text \<open>\<open>sep.join(xs)\<close>\<close>

fun str_join :: "string \<Rightarrow> string list \<Rightarrow> string" where
  "str_join sep [] = []"
| "str_join sep [x] = x"
| "str_join sep (x # y # ys) = x @ sep @ str_join sep (y # ys)"

text \<open>
  \<open>xs[:k]\<close> for a Python integer \<open>k\<close>: a negative bound counts from the end of the
  list, so \<open>xs[:-2]\<close> drops the last two elements.
\<close>

definition py_slice_to :: "'a list \<Rightarrow> int \<Rightarrow> 'a list" where
  "py_slice_to xs k =
     (if k < 0 then take (nat (int (length xs) + k)) xs else take (nat k) xs)"


section \<open>Configuration (Config/config.py)\<close>

record config =
  CHUNK_SIZE :: nat
  CHUNK_OVERLAP :: nat
  MIN_CHUNK_SIZE :: nat
  AUTO_MERGE_THRESHOLD :: int
  NEEDLE_TOP_K :: int
  SUMMARY_TOP_K :: int

definition default_config :: config where
  "default_config =
     \<lparr> CHUNK_SIZE = 400, CHUNK_OVERLAP = 50, MIN_CHUNK_SIZE = 200,
       AUTO_MERGE_THRESHOLD = 3, NEEDLE_TOP_K = 6, SUMMARY_TOP_K = 6 \<rparr>"


section \<open>Segmenter (Indexing/needle_indexing.py, create_needle_chunks)\<close>

text \<open>
  \<open>s.replace(old, new)\<close>: the occurrences of \<open>old\<close> are replaced from left to right,
  without overlap; \<open>skip\<close> counts the characters of a replaced occurrence still to pass.
\<close>

fun replace_from :: "string \<Rightarrow> string \<Rightarrow> nat \<Rightarrow> string \<Rightarrow> string" where
  "replace_from old new skip [] = []"
| "replace_from old new skip (c # cs) =
     (if 0 < skip then replace_from old new (skip - 1) cs
      else if old \<noteq> [] \<and> prefix old (c # cs)
           then new @ replace_from old new (length old - 1) cs
           else c # replace_from old new 0 cs)"

definition str_replace :: "string \<Rightarrow> string \<Rightarrow> string \<Rightarrow> string" where
  "str_replace s old new =
     (if old = [] then new @ concat (map (\<lambda>c. c # new) s) else replace_from old new 0 s)"

text \<open>Lines 32 to 50 of \<open>split_into_sentences\<close>: the dictionary, in its order.\<close>

definition abbreviations :: "(string \<times> string) list" where
  "abbreviations =
     [(''Mr.'', ''MR_PLACEHOLDER''), (''Mrs.'', ''MRS_PLACEHOLDER''),
      (''Ms.'', ''MS_PLACEHOLDER''), (''Dr.'', ''DR_PLACEHOLDER''),
      (''Prof.'', ''PROF_PLACEHOLDER''), (''Sr.'', ''SR_PLACEHOLDER''),
      (''Jr.'', ''JR_PLACEHOLDER''), (''Inc.'', ''INC_PLACEHOLDER''),
      (''Ltd.'', ''LTD_PLACEHOLDER''), (''Co.'', ''CO_PLACEHOLDER''),
      (''Corp.'', ''CORP_PLACEHOLDER''), (''etc.'', ''ETC_PLACEHOLDER''),
      (''vs.'', ''VS_PLACEHOLDER''), (''e.g.'', ''EG_PLACEHOLDER''),
      (''i.e.'', ''IE_PLACEHOLDER''), (''Ph.D.'', ''PHD_PLACEHOLDER''),
      (''M.D.'', ''MD_PLACEHOLDER'')]"

text \<open>Lines 52 to 53 and 63 to 64: the two loops over the dictionary.\<close>

definition protect :: "string \<Rightarrow> string" where
  "protect txt =
     foldl (\<lambda>protected (abbrev, placeholder). str_replace protected abbrev placeholder)
       txt abbreviations"

definition restore :: "string \<Rightarrow> string" where
  "restore sent =
     foldl (\<lambda>s (abbrev, placeholder). str_replace s placeholder abbrev) sent abbreviations"

text \<open>
  \<open>re.split(r'(?<=[.!?])\s+(?=[A-Z"\'])', protected)\<close>. A match starts right after a
  full stop, exclamation or question mark, is the whole run of white space there, and
  needs a capital letter or a quote after the run. \<open>prev\<close> is the character before the
  position, \<open>piece\<close> the current piece in reverse, and \<open>skipping\<close> holds while a matched
  run is passed over.
\<close>

definition sentence_end :: "char \<Rightarrow> bool" where
  "sentence_end c = (c = CHR ''.'' \<or> c = CHR ''!'' \<or> c = CHR ''?'')"

definition sentence_start :: "char \<Rightarrow> bool" where
  "sentence_start c =
     (let n = (of_char c :: nat) in (65 \<le> n \<and> n \<le> 90) \<or> c = CHR 0x22 \<or> c = CHR 0x27)"

fun re_split :: "bool \<Rightarrow> char option \<Rightarrow> string \<Rightarrow> string \<Rightarrow> string list" where
  "re_split skipping prev piece [] = [rev piece]"
| "re_split skipping prev piece (c # cs) =
     (if skipping \<and> is_space c then re_split True prev piece cs
      else if (case prev of Some p \<Rightarrow> sentence_end p | None \<Rightarrow> False) \<and> is_space c
              \<and> (case dropWhile is_space cs of [] \<Rightarrow> False | d # ds \<Rightarrow> sentence_start d)
           then rev piece # re_split True None [] cs
           else re_split False (Some c) (c # piece) cs)"

text \<open>\<open>split_into_sentences\<close>: the restored pieces that are not blank, stripped.\<close>

definition split_into_sentences :: "string \<Rightarrow> string list" where
  "split_into_sentences txt =
     map strip (filter (\<lambda>sent. strip sent \<noteq> [])
                  (map restore (re_split False None [] (protect txt))))"

text \<open>The page metadata that \<open>load_pdf_with_metadata\<close> attaches to each document.\<close>

record page_metadata =
  page_number :: int
  header :: string
  involved_parties :: string
  date :: string
  page_type :: string
  page_id :: string

record document =
  doc_id :: string
  doc_text :: string
  doc_metadata :: page_metadata

text \<open>
  A child \<open>TextNode\<close>: its text, the metadata copied from the parent page and the
  metadata keys the chunker sets. \<open>node.id_\<close> is set to the value of \<open>chunk_id\<close>.
\<close>

record text_node =
  node_text :: string
  inherited :: page_metadata
  chunk_index :: nat
  parent_id :: string
  chunk_id :: string
  chunk_size :: nat
  num_sentences :: nat

text \<open>Lines 147 to 155 and 191 to 198: a node from the sentences of the current chunk.\<close>

definition make_node :: "document \<Rightarrow> nat \<Rightarrow> string list \<Rightarrow> text_node" where
  "make_node parent_doc n current_chunk_sentences =
     (let chunk_text = str_join '' '' current_chunk_sentences
      in \<lparr> node_text = chunk_text,
           inherited = doc_metadata parent_doc,
           chunk_index = n,
           parent_id = doc_id parent_doc,
           chunk_id = doc_id parent_doc @ ''_chunk_'' @ show_nat n,
           chunk_size = length chunk_text,
           num_sentences = length current_chunk_sentences \<rparr>)"

text \<open>
  Lines 159 to 166: the loop over \<open>reversed(current_chunk_sentences)\<close>, carrying
  \<open>overlap_sentences\<close> and \<open>overlap_length\<close>; \<open>break\<close> returns what was collected.
\<close>

fun overlap_loop :: "nat \<Rightarrow> string list \<Rightarrow> string list \<Rightarrow> nat \<Rightarrow> string list" where
  "overlap_loop ov [] overlap_sentences overlap_length = overlap_sentences"
| "overlap_loop ov (prev_sent # rest) overlap_sentences overlap_length =
     (if overlap_length + length prev_sent \<le> ov
      then overlap_loop ov rest (prev_sent # overlap_sentences)
             (overlap_length + length prev_sent + 1)
      else overlap_sentences)"

definition make_overlap :: "config \<Rightarrow> string list \<Rightarrow> string list" where
  "make_overlap cfg current_chunk_sentences =
     overlap_loop (CHUNK_OVERLAP cfg) (rev current_chunk_sentences) [] 0"

text \<open>
  The state of the loop over the sentences of one page: \<open>chunks\<close>,
  \<open>current_chunk_sentences\<close> and \<open>current_chunk_length\<close>.
\<close>

type_synonym chunker_state = "text_node list \<times> string list \<times> nat"

text \<open>Lines 135 to 174: one iteration of the loop.\<close>

fun chunk_step :: "config \<Rightarrow> document \<Rightarrow> chunker_state \<Rightarrow> string \<Rightarrow> chunker_state" where
  "chunk_step cfg parent_doc (chunks, current, current_length) sent0 =
     (let sent = strip sent0 in
      if sent = [] then (chunks, current, current_length)
      else
        let potential_length =
              current_length + length sent + (if current \<noteq> [] then 1 else 0)
        in if current \<noteq> [] \<and> potential_length > CHUNK_SIZE cfg
           then
             let node = make_node parent_doc (length chunks) current;
                 overlap_sentences = make_overlap cfg current;
                 current' = overlap_sentences @ [sent]
             in (chunks @ [node], current',
                 sum_list (map length current') + length current' - 1)
           else (chunks, current @ [sent], potential_length))"

text \<open>Lines 177 to 199: the final chunk, merged into the previous one when it is short.\<close>

fun finish_page :: "config \<Rightarrow> document \<Rightarrow> chunker_state \<Rightarrow> text_node list" where
  "finish_page cfg parent_doc (chunks, current, current_length) =
     (if current \<noteq> [] then
        let chunk_text = str_join '' '' current
        in if length chunks > 0 \<and> length chunk_text < MIN_CHUNK_SIZE cfg
           then
             let prev_chunk = last chunks;
                 merged_text = node_text prev_chunk @ '' '' @ chunk_text
             in butlast chunks @
                  [prev_chunk\<lparr> node_text := merged_text,
                               chunk_size := length merged_text,
                               num_sentences := num_sentences prev_chunk + length current \<rparr>]
           else chunks @ [make_node parent_doc (length chunks) current]
      else chunks)"

text \<open>
  The child units of one page, from the sentence list that \<open>split_into_sentences\<close>
  returned for its text.
\<close>

definition page_chunks :: "config \<Rightarrow> document \<Rightarrow> string list \<Rightarrow> text_node list" where
  "page_chunks cfg parent_doc sentences =
     finish_page cfg parent_doc (foldl (chunk_step cfg parent_doc) ([], [], 0) sentences)"

text \<open>\<open>create_needle_chunks\<close>: the parent nodes and the child nodes of all pages.\<close>

definition create_needle_chunks :: "config \<Rightarrow> document list \<Rightarrow> document list \<times> text_node list" where
  "create_needle_chunks cfg documents =
     (documents,
      concat (map (\<lambda>parent_doc.
                     page_chunks cfg parent_doc (split_into_sentences (doc_text parent_doc)))
                documents))"


section \<open>Records of the datastore (Supabase rows) and of the docstore\<close>

text \<open>
  The \<open>metadata\<close> dictionary of a row. A key that is absent is \<open>None\<close>, so
  \<open>metadata.get(k, d)\<close> is a case distinction on the field.
\<close>

record metadata =
  md_parent_id :: "string option"
  md_page_number :: "int option"
  md_header :: "string option"
  md_summary_type :: "string option"
  md_type :: "string option"

definition empty_metadata :: metadata where
  "empty_metadata =
     \<lparr> md_parent_id = None, md_page_number = None, md_header = None,
       md_summary_type = None, md_type = None \<rparr>"

text \<open>
  The \<open>embedding\<close> column of a row, after lines 139 to 144 of needle_agent.py (114 to 120
  of summary_agent.py): a vector, or a stored value on which \<open>json.loads\<close> or
  \<open>np.array(.., dtype=np.float32)\<close> raises. The components are the numbers stored; the
  arithmetic on them belongs to the environment.
\<close>

datatype stored_embedding = EmbVector "real list" | EmbMalformed

record chunk_row =
  row_chunk_id :: "string option"
  row_content :: "string option"
  row_metadata :: "metadata option"
  row_page_number :: "int option"
  row_parent_id :: "string option"
  row_embedding :: stored_embedding

record summary_row =
  sum_summary_id :: "string option"
  sum_content :: "string option"
  sum_metadata :: "metadata option"
  sum_page_number :: "int option"
  sum_summary_type :: "string option"
  sum_embedding :: stored_embedding

text \<open>
  An entry of \<open>self.parent_docs\<close>: a dictionary with an optional \<open>text\<close> key and an
  optional \<open>__data__\<close> dictionary (itself with an optional \<open>text\<close> key), a plain string,
  or a value of another type.
\<close>

datatype parent_doc =
    DocDict "string option" "string option option"
  | DocStr string
  | DocOther

text \<open>
  The external collaborators of one query: the embedding call, the arithmetic of numpy,
  the sort of Python on keys that are not ordered, the two tables as \<open>execute()\<close> returns
  them, the loaded docstore, and the chat completion of each engine (from the user prompt
  to the stripped reply) and of the router (from the query to the raw reply).

  \<open>np_cosine q c\<close> is the float that numpy computes for
  \<open>np.dot(q, c) / (np.linalg.norm(q) * np.linalg.norm(c))\<close> on two vectors of the same
  length, the second converted to float32: \<open>None\<close> stands for nan, and the floats that are
  numbers, compared as Python compares them, are the elements of a linear order \<open>'s\<close>.
  Nothing is assumed of the rounding.

  \<open>sort_order_with_nan keys\<close> is the order in which \<open>list.sort(reverse=True)\<close> leaves a
  list whose keys include nan, as the list of the old positions: no comparison with nan
  holds, so that order depends on the sorting algorithm and need not be descending.
\<close>

record 's env =
  embed :: "string \<Rightarrow> error + real list"
  np_cosine :: "real list \<Rightarrow> real list \<Rightarrow> 's option"
  sort_order_with_nan :: "'s option list \<Rightarrow> nat list"
  chunks_table :: "error + chunk_row list"
  summaries_table :: "error + summary_row list"
  parent_docs :: "string \<rightharpoonup> parent_doc"
  needle_llm :: "string \<Rightarrow> error + string"
  summary_llm :: "string \<Rightarrow> error + string"
  router_llm :: "string \<Rightarrow> error + string"


section \<open>Similarity retrieval (Agents/needle_agent.py, search_chunks)\<close>

text \<open>
  Lines 147 to 149: \<open>np.dot\<close> raises on vectors of different lengths; otherwise the
  similarity is the float that numpy computes, a number or nan.
\<close>

definition cosine_similarity ::
  "(real list \<Rightarrow> real list \<Rightarrow> 's option) \<Rightarrow> real list \<Rightarrow> real list \<Rightarrow> error + 's option" where
  "cosine_similarity sim query_embedding chunk_embedding =
     (if length query_embedding \<noteq> length chunk_embedding then Inl VectorError
      else Inr (sim query_embedding chunk_embedding))"

text \<open>
  Lines 136 to 151: the list \<open>similarities\<close> of pairs (score, record); the first
  exception ends the loop. The function is shared by the two agents; \<open>emb\<close> reads the
  embedding column.
\<close>

fun compute_similarities ::
  "('r \<Rightarrow> stored_embedding) \<Rightarrow> (real list \<Rightarrow> real list \<Rightarrow> 's option) \<Rightarrow> real list \<Rightarrow> 'r list \<Rightarrow>
   error + ('s option \<times> 'r) list" where
  "compute_similarities emb sim q [] = Inr []"
| "compute_similarities emb sim q (r # rs) =
     (case emb r of
        EmbMalformed \<Rightarrow> Inl VectorError
      | EmbVector v \<Rightarrow>
          (case cosine_similarity sim q v of
             Inl e \<Rightarrow> Inl e
           | Inr similarity \<Rightarrow>
               (case compute_similarities emb sim q rs of
                  Inl e \<Rightarrow> Inl e
                | Inr similarities \<Rightarrow> Inr ((similarity, r) # similarities))))"

text \<open>The pairs with their scores as numbers, when no score is nan.\<close>

fun numbers :: "('s option \<times> 'r) list \<Rightarrow> ('s \<times> 'r) list option" where
  "numbers [] = Some []"
| "numbers ((score, r) # rest) =
     (case score of
        None \<Rightarrow> None
      | Some s \<Rightarrow> (case numbers rest of None \<Rightarrow> None | Some ns \<Rightarrow> Some ((s, r) # ns)))"

text \<open>
  \<open>similarities.sort(key=lambda x: x[0], reverse=True)\<close>. Python reverses the list, sorts
  it ascending with its stable sort and reverses it again; on keys that are numbers the
  result is the descending order in which equal keys keep their order. When a key is nan
  the list is left in the order given by the environment (in Python a permutation of the
  positions; a position outside the list is skipped).
\<close>

definition sort_by_score ::
  "('s::linorder option list \<Rightarrow> nat list) \<Rightarrow> ('s option \<times> 'r) list \<Rightarrow> ('s option \<times> 'r) list" where
  "sort_by_score order_with_nan similarities =
     (case numbers similarities of
        Some nums \<Rightarrow> map (\<lambda>(s, r). (Some s, r)) (rev (sort_key fst (rev nums)))
      | None \<Rightarrow>
          map (\<lambda>i. similarities ! i)
            (filter (\<lambda>i. i < length similarities) (order_with_nan (map fst similarities))))"

text \<open>
  \<open>search_chunks\<close>. The embedding call stands before the \<open>try\<close>, so its exception leaves
  the function; every exception inside the \<open>try\<close> is caught and gives the empty list.
\<close>

definition search_chunks :: "'s::linorder env \<Rightarrow> config \<Rightarrow> string \<Rightarrow> int option \<Rightarrow> error + chunk_row list" where
  "search_chunks w cfg query top_k_opt =
     (let top_k = (case top_k_opt of None \<Rightarrow> NEEDLE_TOP_K cfg | Some k \<Rightarrow> k) in
      case embed w query of
        Inl e \<Rightarrow> Inl e
      | Inr query_embedding \<Rightarrow>
          (case chunks_table w of
             Inl e \<Rightarrow> Inr []
           | Inr chunks \<Rightarrow>
               if chunks = [] then Inr []
               else
                 (case compute_similarities row_embedding (np_cosine w) query_embedding chunks of
                    Inl e \<Rightarrow> Inr []
                  | Inr similarities \<Rightarrow>
                      Inr (map snd (py_slice_to
                             (sort_by_score (sort_order_with_nan w) similarities) top_k)))))"


section \<open>Detail engine (Agents/needle_agent.py, answer_query)\<close>

text \<open>\<open>_get_parent_context\<close>\<close>

definition get_parent_context :: "(string \<rightharpoonup> parent_doc) \<Rightarrow> string \<Rightarrow> string" where
  "get_parent_context docs pid =
     (case docs pid of
        None \<Rightarrow> []
      | Some (DocDict text_field data_field) \<Rightarrow>
          (case text_field of
             Some t \<Rightarrow> t
           | None \<Rightarrow>
               (case data_field of
                  None \<Rightarrow> []
                | Some d \<Rightarrow> (case d of Some t \<Rightarrow> t | None \<Rightarrow> [])))
      | Some (DocStr s) \<Rightarrow> s
      | Some DocOther \<Rightarrow> [])"

text \<open>\<open>chunk.get('metadata', {})\<close>\<close>

definition chunk_metadata :: "chunk_row \<Rightarrow> metadata" where
  "chunk_metadata chunk = (case row_metadata chunk of Some m \<Rightarrow> m | None \<Rightarrow> empty_metadata)"

text \<open>\<open>metadata.get('parent_id', chunk.get('parent_id'))\<close>\<close>

definition chunk_parent_id :: "chunk_row \<Rightarrow> string option" where
  "chunk_parent_id chunk =
     (case md_parent_id (chunk_metadata chunk) of
        Some p \<Rightarrow> Some p
      | None \<Rightarrow> row_parent_id chunk)"

text \<open>
  \<open>metadata.get('page_number', chunk.get('page_number', 'Unknown'))\<close> and
  \<open>metadata.get('header', 'Unknown')\<close>
\<close>

datatype page_label = PageNumber int | PageUnknown

definition chunk_page_num :: "chunk_row \<Rightarrow> page_label" where
  "chunk_page_num chunk =
     (case md_page_number (chunk_metadata chunk) of
        Some n \<Rightarrow> PageNumber n
      | None \<Rightarrow> (case row_page_number chunk of Some n \<Rightarrow> PageNumber n | None \<Rightarrow> PageUnknown))"

definition header_of :: "metadata \<Rightarrow> string" where
  "header_of m = (case md_header m of Some h \<Rightarrow> h | None \<Rightarrow> ''Unknown'')"

text \<open>
  Lines 230 to 235: \<open>parent_chunk_count\<close>, a dictionary in insertion order. A parent id
  that is missing or empty is not counted.
\<close>

fun count_parents :: "chunk_row list \<Rightarrow> (string \<times> nat) list \<Rightarrow> (string \<times> nat) list" where
  "count_parents [] parent_chunk_count = parent_chunk_count"
| "count_parents (chunk # chunks) parent_chunk_count =
     (case chunk_parent_id chunk of
        None \<Rightarrow> count_parents chunks parent_chunk_count
      | Some pid \<Rightarrow>
          if pid \<noteq> []
          then count_parents chunks
                 (AList.update pid
                    ((case map_of parent_chunk_count pid of Some c \<Rightarrow> c | None \<Rightarrow> 0) + 1)
                    parent_chunk_count)
          else count_parents chunks parent_chunk_count)"

text \<open>Lines 238 to 241: \<open>parents_to_merge\<close>\<close>

definition parents_to_merge :: "bool \<Rightarrow> int \<Rightarrow> chunk_row list \<Rightarrow> string list" where
  "parents_to_merge use_auto_merge merge_threshold chunks =
     (if use_auto_merge
      then map fst (filter (\<lambda>(pid, count). merge_threshold \<le> int count)
                      (count_parents chunks []))
      else [])"

text \<open>
  An element of \<open>context_parts\<close>. A full-page block keeps the id of the parent it was
  built for; \<open>render_part\<close> shows that the id is not printed.
\<close>

datatype context_part =
    ChunkPart nat page_label string string
  | Line string
  | FullPage string page_label string string

definition show_page :: "page_label \<Rightarrow> string" where
  "show_page p = (case p of PageNumber n \<Rightarrow> show_int n | PageUnknown \<Rightarrow> ''Unknown'')"

definition newline :: string where
  "newline = [CHR 0x0A]"

fun render_part :: "context_part \<Rightarrow> string" where
  "render_part (ChunkPart i page_num hdr content) =
     ''[Chunk '' @ show_nat i @ '' - Page '' @ show_page page_num @ '': '' @ hdr @ '']''
       @ newline @ content"
| "render_part (Line s) = s"
| "render_part (FullPage pid page_num hdr parent_text) =
     ''[FULL PAGE - Page '' @ show_page page_num @ '': '' @ hdr @ '']''
       @ newline @ parent_text @ newline"

record source_entry =
  src_page :: page_label
  src_header :: string
  src_chunk_id :: string
  src_content :: string
  src_metadata :: metadata

text \<open>Lines 253 to 269: the loop over \<open>enumerate(chunks, 1)\<close>.\<close>

definition chunk_content :: "chunk_row \<Rightarrow> string" where
  "chunk_content chunk = (case row_content chunk of Some c \<Rightarrow> c | None \<Rightarrow> [])"

definition chunk_part :: "nat \<times> chunk_row \<Rightarrow> context_part" where
  "chunk_part ic =
     (case ic of (i, chunk) \<Rightarrow>
        ChunkPart i (chunk_page_num chunk) (header_of (chunk_metadata chunk))
          (chunk_content chunk))"

definition chunk_source :: "nat \<times> chunk_row \<Rightarrow> source_entry" where
  "chunk_source ic =
     (case ic of (i, chunk) \<Rightarrow>
        \<lparr> src_page = chunk_page_num chunk,
          src_header = header_of (chunk_metadata chunk),
          src_chunk_id =
            (case row_chunk_id chunk of Some c \<Rightarrow> c | None \<Rightarrow> ''chunk_'' @ show_nat i),
          src_content = chunk_content chunk,
          src_metadata = chunk_metadata chunk \<rparr>)"

text \<open>\<open>parents_already_added.add(parent_id)\<close> on a set kept as a duplicate-free list.\<close>

definition set_add :: "'a \<Rightarrow> 'a list \<Rightarrow> 'a list" where
  "set_add x xs = (if x \<in> set xs then xs else xs @ [x])"

text \<open>
  Lines 277 to 290: the loop that appends the full parent pages, on the state
  (\<open>context_parts\<close>, \<open>parents_already_added\<close>).
\<close>

fun add_parent_pages ::
  "(string \<rightharpoonup> parent_doc) \<Rightarrow> string list \<Rightarrow> chunk_row list \<Rightarrow>
   context_part list \<times> string list \<Rightarrow> context_part list \<times> string list" where
  "add_parent_pages docs to_merge [] st = st"
| "add_parent_pages docs to_merge (chunk # chunks) (context_parts, parents_already_added) =
     (case chunk_parent_id chunk of
        None \<Rightarrow> add_parent_pages docs to_merge chunks (context_parts, parents_already_added)
      | Some pid \<Rightarrow>
          if pid \<in> set to_merge \<and> pid \<notin> set parents_already_added
          then
            let parent_text = get_parent_context docs pid
            in if parent_text \<noteq> []
               then add_parent_pages docs to_merge chunks
                      (context_parts @
                         [FullPage pid (chunk_page_num chunk)
                            (header_of (chunk_metadata chunk)) parent_text],
                       set_add pid parents_already_added)
               else add_parent_pages docs to_merge chunks (context_parts, parents_already_added)
          else add_parent_pages docs to_merge chunks (context_parts, parents_already_added))"

text \<open>
  Lines 229 to 294: from the retrieved chunks to \<open>context_parts\<close>, \<open>sources\<close> and
  \<open>parents_already_added\<close>.
\<close>

definition banner :: "context_part list" where
  "banner =
     [Line (newline @ replicate 70 (CHR ''='')),
      Line ''[ADDITIONAL CONTEXT - Full Parent Pages]'',
      Line (replicate 70 (CHR ''='') @ newline)]"

definition build_context ::
  "(string \<rightharpoonup> parent_doc) \<Rightarrow> bool \<Rightarrow> int \<Rightarrow> chunk_row list \<Rightarrow>
   context_part list \<times> source_entry list \<times> string list" where
  "build_context docs use_auto_merge merge_threshold chunks =
     (let to_merge = parents_to_merge use_auto_merge merge_threshold chunks;
          context_parts = map chunk_part (List.enumerate 1 chunks);
          sources = map chunk_source (List.enumerate 1 chunks);
          (context_parts', parents_already_added) =
            (if to_merge \<noteq> []
             then add_parent_pages docs to_merge chunks (context_parts @ banner, [])
             else (context_parts, []))
      in (context_parts', sources, parents_already_added))"

definition needle_user_prompt :: "context_part list \<Rightarrow> string \<Rightarrow> string" where
  "needle_user_prompt context_parts query =
     ''Context from insurance claim:'' @ newline @ newline
       @ str_join (newline @ newline) (map render_part context_parts)
       @ newline @ newline @ ''Question: '' @ query @ newline @ newline @ ''Answer:''"

record needle_result =
  answer :: string
  sources :: "source_entry list"
  chunks_used :: nat
  parent_pages_used :: nat

definition not_found_message :: string where
  "not_found_message = ''I couldn't find relevant information to answer your question.''"

definition generation_failed_message :: string where
  "generation_failed_message = ''An error occurred while generating the answer.''"

text \<open>\<open>NeedleAgent.answer_query\<close>\<close>

definition needle_answer_query ::
  "'s::linorder env \<Rightarrow> config \<Rightarrow> string \<Rightarrow> int option \<Rightarrow> bool \<Rightarrow> int option \<Rightarrow>
   error + needle_result" where
  "needle_answer_query w cfg query top_k_opt use_auto_merge merge_threshold_opt =
     (let merge_threshold =
            (case merge_threshold_opt of None \<Rightarrow> AUTO_MERGE_THRESHOLD cfg | Some t \<Rightarrow> t);
          top_k = (case top_k_opt of None \<Rightarrow> NEEDLE_TOP_K cfg | Some k \<Rightarrow> k)
      in case search_chunks w cfg query (Some top_k) of
           Inl e \<Rightarrow> Inl e
         | Inr chunks \<Rightarrow>
             if chunks = []
             then Inr \<lparr> answer = not_found_message, sources = [],
                        chunks_used = 0, parent_pages_used = 0 \<rparr>
             else
               (case build_context (parent_docs w) use_auto_merge merge_threshold chunks of
                  (context_parts, srcs, parents_already_added) \<Rightarrow>
                    (case needle_llm w (needle_user_prompt context_parts query) of
                       Inr reply \<Rightarrow>
                         Inr \<lparr> answer = reply, sources = srcs,
                               chunks_used = length chunks,
                               parent_pages_used = length parents_already_added \<rparr>
                     | Inl e \<Rightarrow>
                         Inr \<lparr> answer = generation_failed_message, sources = srcs,
                               chunks_used = length chunks,
                               parent_pages_used = length parents_already_added \<rparr>)))"


section \<open>Overview engine (Agents/summary_agent.py)\<close>

text \<open>\<open>summary.get('metadata', {})\<close>\<close>

definition summary_metadata :: "summary_row \<Rightarrow> metadata" where
  "summary_metadata summary =
     (case sum_metadata summary of Some m \<Rightarrow> m | None \<Rightarrow> empty_metadata)"

text \<open>\<open>metadata.get('summary_type', summary.get('summary_type', ''))\<close>\<close>

definition summary_page_type :: "summary_row \<Rightarrow> string" where
  "summary_page_type summary =
     (case md_summary_type (summary_metadata summary) of
        Some t \<Rightarrow> t
      | None \<Rightarrow> (case sum_summary_type summary of Some t \<Rightarrow> t | None \<Rightarrow> []))"

definition is_overview :: "summary_row \<Rightarrow> bool" where
  "is_overview summary = (summary_page_type summary = ''Overview'')"

text \<open>
  \<open>search_summaries\<close>. Lines 96 to 107 split the rows, in their order, into the
  Overview rows and the others; lines 134 to 137 cut the ranked others with
  \<open>similarities[:num_others]\<close>, where \<open>num_others\<close> can be negative.
\<close>

definition search_summaries ::
  "'s::linorder env \<Rightarrow> config \<Rightarrow> string \<Rightarrow> int option \<Rightarrow> error + summary_row list" where
  "search_summaries w cfg query top_k_opt =
     (let top_k = (case top_k_opt of None \<Rightarrow> SUMMARY_TOP_K cfg | Some k \<Rightarrow> k) in
      case embed w query of
        Inl e \<Rightarrow> Inl e
      | Inr query_embedding \<Rightarrow>
          (case summaries_table w of
             Inl e \<Rightarrow> Inr []
           | Inr summaries \<Rightarrow>
               if summaries = [] then Inr []
               else
                 (case List.partition is_overview summaries of
                    (overview_summaries, other_summaries) \<Rightarrow>
                      (case compute_similarities sum_embedding (np_cosine w) query_embedding
                              other_summaries of
                         Inl e \<Rightarrow> Inr []
                       | Inr similarities0 \<Rightarrow>
                           let similarities = sort_by_score (sort_order_with_nan w) similarities0;
                               num_others = min (top_k - int (length overview_summaries))
                                                (int (length similarities));
                               top_other_summaries = map snd (py_slice_to similarities num_others)
                           in Inr (overview_summaries @ top_other_summaries)))))"

definition summary_page_num :: "summary_row \<Rightarrow> page_label" where
  "summary_page_num summary =
     (case md_page_number (summary_metadata summary) of
        Some n \<Rightarrow> PageNumber n
      | None \<Rightarrow> (case sum_page_number summary of Some n \<Rightarrow> PageNumber n | None \<Rightarrow> PageUnknown))"

definition summary_content :: "summary_row \<Rightarrow> string" where
  "summary_content summary = (case sum_content summary of Some c \<Rightarrow> c | None \<Rightarrow> [])"

text \<open>Line 196: one element of \<open>context_parts\<close>.\<close>

definition summary_part :: "summary_row \<Rightarrow> string" where
  "summary_part summary =
     ''[Page '' @ show_page (summary_page_num summary) @ '': ''
       @ header_of (summary_metadata summary) @ '']'' @ newline @ summary_content summary"

record summary_source =
  ss_page :: page_label
  ss_header :: string
  ss_summary_id :: "string option"
  ss_summary :: string
  ss_type :: string
  ss_metadata :: metadata

text \<open>Lines 197 to 204; the type is \<open>metadata.get('summary_type', metadata.get('type', 'Unknown'))\<close>.\<close>

definition make_summary_source :: "summary_row \<Rightarrow> summary_source" where
  "make_summary_source summary =
     (let m = summary_metadata summary
      in \<lparr> ss_page = summary_page_num summary,
           ss_header = header_of m,
           ss_summary_id = sum_summary_id summary,
           ss_summary = summary_content summary,
           ss_type =
             (case md_summary_type m of
                Some t \<Rightarrow> t
              | None \<Rightarrow> (case md_type m of Some t \<Rightarrow> t | None \<Rightarrow> ''Unknown'')),
           ss_metadata = m \<rparr>)"

definition summary_user_prompt :: "summary_row list \<Rightarrow> string \<Rightarrow> string" where
  "summary_user_prompt summaries query =
     ''Insurance claim summaries:'' @ newline @ newline
       @ str_join (newline @ newline) (map summary_part summaries)
       @ newline @ newline @ ''Question: '' @ query @ newline @ newline @ ''Answer:''"

record summary_result =
  summary_answer :: string
  summary_sources :: "summary_source list"
  summaries_used :: nat

text \<open>\<open>SummaryAgent.answer_query\<close>\<close>

definition summary_answer_query ::
  "'s::linorder env \<Rightarrow> config \<Rightarrow> string \<Rightarrow> int option \<Rightarrow> error + summary_result" where
  "summary_answer_query w cfg query top_k_opt =
     (let top_k = (case top_k_opt of None \<Rightarrow> SUMMARY_TOP_K cfg | Some k \<Rightarrow> k)
      in case search_summaries w cfg query (Some top_k) of
           Inl e \<Rightarrow> Inl e
         | Inr summaries \<Rightarrow>
             if summaries = []
             then Inr \<lparr> summary_answer = not_found_message, summary_sources = [],
                        summaries_used = 0 \<rparr>
             else
               let srcs = map make_summary_source summaries
               in (case summary_llm w (summary_user_prompt summaries query) of
                     Inr reply \<Rightarrow>
                       Inr \<lparr> summary_answer = reply, summary_sources = srcs,
                             summaries_used = length summaries \<rparr>
                   | Inl e \<Rightarrow>
                       Inr \<lparr> summary_answer = generation_failed_message, summary_sources = srcs,
                             summaries_used = length summaries \<rparr>))"


section \<open>Intent router (Agents/routing_agent.py, route)\<close>

text \<open>\<open>str.upper\<close> and \<open>str.lower\<close> on ASCII text, character by character.\<close>

definition upper_char :: "char \<Rightarrow> char" where
  "upper_char c =
     (let n = (of_char c :: nat) in if 97 \<le> n \<and> n \<le> 122 then char_of (n - 32) else c)"

definition lower_char :: "char \<Rightarrow> char" where
  "lower_char c =
     (let n = (of_char c :: nat) in if 65 \<le> n \<and> n \<le> 90 then char_of (n + 32) else c)"

definition upper :: "string \<Rightarrow> string" where
  "upper s = map upper_char s"

definition lower :: "string \<Rightarrow> string" where
  "lower s = map lower_char s"

text \<open>Lines 131 to 150: the body of the \<open>try\<close>; an exception of the call is \<open>Inl\<close>.\<close>

definition route_try :: "'s env \<Rightarrow> string \<Rightarrow> error + string" where
  "route_try w query =
     (case router_llm w query of
        Inl e \<Rightarrow> Inl e
      | Inr content \<Rightarrow>
          let routing_decision = upper (strip content)
          in if routing_decision \<notin> set [''SUMMARY'', ''NEEDLE'']
             then Inr ''needle''
             else Inr (lower routing_decision))"

text \<open>\<open>RoutingAgent.route\<close>: the \<open>except\<close> clause returns the default label.\<close>

definition route :: "'s env \<Rightarrow> string \<Rightarrow> error + string" where
  "route w query =
     (case route_try w query of
        Inl e \<Rightarrow> Inr ''needle''
      | Inr result \<Rightarrow> Inr result)"


section \<open>Invariant of the chunking loop\<close>

text \<open>
  What holds of the loop state after every sentence: \<open>current_chunk_length\<close> is the length
  of the joined current sentences, and once a chunk has been closed the current sentences
  are not empty and, joined to the last closed chunk with one space, exceed the chunk size.
\<close>

definition chunker_inv :: "config \<Rightarrow> chunker_state \<Rightarrow> bool" where
  "chunker_inv cfg st =
     (case st of (chunks, current, n) \<Rightarrow>
        n = length (str_join '' '' current) \<and>
        (chunks \<noteq> [] \<longrightarrow>
           current \<noteq> [] \<and>
           CHUNK_SIZE cfg < length (node_text (last chunks)) + 1 + length (str_join '' '' current)))"


section \<open>Notions used in the statements\<close>

text \<open>The number of retrieved chunks whose parent id is \<open>P\<close>.\<close>

definition parent_count :: "string \<Rightarrow> chunk_row list \<Rightarrow> nat" where
  "parent_count P chunks = length (filter (\<lambda>chunk. chunk_parent_id chunk = Some P) chunks)"

text \<open>
  The texts of the full-page blocks of a context that were built for parent \<open>P\<close>, in
  their order; and whether a part is a full-page block at all.
\<close>

fun full_page_of :: "string \<Rightarrow> context_part \<Rightarrow> string option" where
  "full_page_of P (FullPage pid page_num hdr parent_text) =
     (if pid = P then Some parent_text else None)"
| "full_page_of P (ChunkPart i page_num hdr content) = None"
| "full_page_of P (Line s) = None"

definition full_page_texts :: "string \<Rightarrow> context_part list \<Rightarrow> string list" where
  "full_page_texts P context_parts = List.map_filter (full_page_of P) context_parts"

fun is_full_page :: "context_part \<Rightarrow> bool" where
  "is_full_page (FullPage pid page_num hdr parent_text) = True"
| "is_full_page (ChunkPart i page_num hdr content) = False"
| "is_full_page (Line s) = False"

text \<open>
  The score computed for a record: what numpy computes for the query and the stored
  vector (nan included), and nan for a record without a vector. A record is well formed
  for a query when its stored embedding is a vector of the query's length.
\<close>

definition computed_score ::
  "('r \<Rightarrow> stored_embedding) \<Rightarrow> (real list \<Rightarrow> real list \<Rightarrow> 's option) \<Rightarrow> real list \<Rightarrow> 'r \<Rightarrow> 's option" where
  "computed_score emb sim q r =
     (case emb r of
        EmbVector v \<Rightarrow> sim q v
      | EmbMalformed \<Rightarrow> None)"

definition well_formed :: "('r \<Rightarrow> stored_embedding) \<Rightarrow> real list \<Rightarrow> 'r \<Rightarrow> bool" where
  "well_formed emb q r =
     (case emb r of EmbVector v \<Rightarrow> length v = length q | EmbMalformed \<Rightarrow> False)"

text \<open>The answer object of lines 222 to 227.\<close>

definition not_found_result :: needle_result where
  "not_found_result =
     \<lparr> answer = not_found_message, sources = [], chunks_used = 0, parent_pages_used = 0 \<rparr>"


section \<open>Concrete inputs\<close>

text \<open>
  A sentence of 395 characters; a page of a short sentence followed by it; and the same
  page with a short third sentence.
\<close>

definition long_sentence :: string where
  "long_sentence = CHR ''B'' # replicate 393 (CHR ''b'') @ ''.''"

definition example_page :: document where
  "example_page =
     \<lparr> doc_id = ''page_2'', doc_text = ''Boat. '' @ long_sentence,
       doc_metadata = \<lparr> page_number = 2, header = ''Incident'', involved_parties = [],
                        date = [], page_type = ''Details'', page_id = ''page_2'' \<rparr> \<rparr>"

definition tail_page :: document where
  "tail_page = example_page\<lparr> doc_text := ''Boat. '' @ long_sentence @ '' Tall oak.'' \<rparr>"


text \<open>
  Rows of the chunk table as the indexer writes them, four retrieved chunks of which three
  share the parent \<open>page_2\<close>, and a docstore that holds that page in the LlamaIndex
  layout.
\<close>

definition mk_chunk :: "string \<Rightarrow> string \<Rightarrow> int \<Rightarrow> string \<Rightarrow> real list \<Rightarrow> chunk_row" where
  "mk_chunk cid pid page content v =
     \<lparr> row_chunk_id = Some cid, row_content = Some content,
       row_metadata =
         Some \<lparr> md_parent_id = Some pid, md_page_number = Some page,
                md_header = Some ''Incident'', md_summary_type = None,
                md_type = Some ''Details'' \<rparr>,
       row_page_number = Some page, row_parent_id = Some pid,
       row_embedding = EmbVector v \<rparr>"

definition example_chunks :: "chunk_row list" where
  "example_chunks =
     [mk_chunk ''page_2_chunk_0'' ''page_2'' 2 ''Alpha.'' [1, 0],
      mk_chunk ''page_2_chunk_1'' ''page_2'' 2 ''Beta.'' [1, 0],
      mk_chunk ''page_3_chunk_0'' ''page_3'' 3 ''Gamma.'' [1, 0],
      mk_chunk ''page_2_chunk_2'' ''page_2'' 2 ''Delta.'' [1, 0]]"

definition example_docstore :: "string \<rightharpoonup> parent_doc" where
  "example_docstore =
     [''page_2'' \<mapsto> DocDict None (Some (Some ''Full text of page two.''))]"

text \<open>
  The arithmetic of the examples. Their vectors have the entries 0, 1 and -1 and the norm
  1, on which the floating-point computation is exact: the scores are 1, 0 and -1. A zero
  norm gives nan.
\<close>

definition dot :: "real list \<Rightarrow> real list \<Rightarrow> real" where
  "dot u v = sum_list (map2 (*) u v)"

definition norm2 :: "real list \<Rightarrow> real" where
  "norm2 v = sqrt (sum_list (map (\<lambda>x. x * x) v))"

definition exact_cosine :: "real list \<Rightarrow> real list \<Rightarrow> real option" where
  "exact_cosine q v =
     (if norm2 q = 0 \<or> norm2 v = 0 then None
      else Some (dot q v / (norm2 q * norm2 v)))"

text \<open>
  An environment in which every call succeeds, over a given docstore; and variants with an
  empty chunk table, a failing embedding call, and chunks of different scores. No score
  of the examples is nan, so the order for keys with nan is not consulted.
\<close>

definition example_env :: "(string \<rightharpoonup> parent_doc) \<Rightarrow> real env" where
  "example_env docs =
     \<lparr> embed = (\<lambda>q. Inr [1, 0]),
       np_cosine = exact_cosine,
       sort_order_with_nan = (\<lambda>keys. [0..<length keys]),
       chunks_table = Inr example_chunks,
       summaries_table = Inr [],
       parent_docs = docs,
       needle_llm = (\<lambda>p. Inr ''An answer.''),
       summary_llm = (\<lambda>p. Inr ''An overview.''),
       router_llm = (\<lambda>q. Inr ''NEEDLE'') \<rparr>"

definition env_empty_table :: "real env" where
  "env_empty_table = (example_env Map.empty)\<lparr> chunks_table := Inr [] \<rparr>"

definition env_embed_fails :: "real env" where
  "env_embed_fails = (example_env example_docstore)\<lparr> embed := (\<lambda>q. Inl EmbeddingError) \<rparr>"



text \<open>
  Rows of the summary table: two Overview pages and three Details pages, with the scores
  0, 1 and -1 against the query vector.
\<close>

definition mk_summary :: "string \<Rightarrow> int \<Rightarrow> string \<Rightarrow> real list \<Rightarrow> summary_row" where
  "mk_summary sid page ty v =
     \<lparr> sum_summary_id = Some sid, sum_content = Some (''Summary of '' @ sid),
       sum_metadata =
         Some \<lparr> md_parent_id = None, md_page_number = Some page,
                md_header = Some ''Header'', md_summary_type = Some ty, md_type = None \<rparr>,
       sum_page_number = Some page, sum_summary_type = Some ty,
       sum_embedding = EmbVector v \<rparr>"

definition overview_heavy_summaries :: "summary_row list" where
  "overview_heavy_summaries =
     [mk_summary ''page_1_summary'' 1 ''Overview'' [0, 1],
      mk_summary ''page_2_summary'' 2 ''Details'' [0, 1],
      mk_summary ''page_3_summary'' 3 ''Overview'' [0, 1],
      mk_summary ''page_4_summary'' 4 ''Details'' [1, 0],
      mk_summary ''page_5_summary'' 5 ''Details'' [-1, 0]]"

definition summary_env :: "summary_row list \<Rightarrow> real env" where
  "summary_env summaries = (example_env Map.empty)\<lparr> summaries_table := Inr summaries \<rparr>"


text \<open>An environment whose classifier call has a given outcome.\<close>

definition router_env :: "(error + string) \<Rightarrow> real env" where
  "router_env reply = (example_env Map.empty)\<lparr> router_llm := (\<lambda>q. reply) \<rparr>"


section \<open>Properties of the segmenter\<close>

subsection \<open>Joining and stripping\<close>

lemma length_str_join:
  "length (str_join sep xs) = sum_list (map length xs) + (length xs - 1) * length sep"
  by (induction sep xs rule: str_join.induct) simp_all


lemma str_join_append:
  "xs \<noteq> [] \<Longrightarrow> ys \<noteq> [] \<Longrightarrow> str_join sep (xs @ ys) = str_join sep xs @ sep @ str_join sep ys"
  by (induction sep xs rule: str_join.induct) (auto simp: neq_Nil_conv)

lemma str_join_prefix: "prefix (str_join sep xs) (str_join sep (xs @ ys))"
  by (cases "xs = []"; cases "ys = []") (simp_all add: str_join_append)

lemma str_join_suffix:
  assumes "suffix xs ys"
  shows "suffix (str_join sep xs) (str_join sep ys)"
proof -
  from assms obtain zs where ys: "ys = zs @ xs" by (auto simp: suffix_def)
  show ?thesis
  proof (cases "xs = [] \<or> zs = []")
    case True
    then show ?thesis using ys by auto
  next
    case False
    then have "str_join sep ys = (str_join sep zs @ sep) @ str_join sep xs"
      using ys by (simp add: str_join_append)
    then show ?thesis unfolding suffix_def by blast
  qed
qed

lemma strip_noop:
  assumes "s \<noteq> []" "\<not> is_space (hd s)" "\<not> is_space (last s)"
  shows "strip s = s"
proof -
  from assms have "dropWhile is_space s = s" by (cases s) auto
  moreover from assms have "dropWhile is_space (rev s) = rev s"
    by (cases "rev s") (auto simp: hd_rev [symmetric] simp del: hd_rev)
  ultimately show ?thesis by (simp add: strip_def)
qed

lemma strip_long: "strip long_sentence = long_sentence"
  by (rule strip_noop) (simp_all add: long_sentence_def is_space_def)

lemma length_long: "length long_sentence = 395"
  by (simp add: long_sentence_def)

lemma long_ne: "long_sentence \<noteq> []"
  by (simp add: long_sentence_def)

lemma strip_short: "strip ''Boat.'' = ''Boat.''"
  by (simp add: strip_def is_space_def)

lemma strip_tail: "strip ''Tall oak.'' = ''Tall oak.''"
  by (simp add: strip_def is_space_def)

subsection \<open>The sentence splitter on two page texts\<close>

lemma replace_from_no_head:
  "old \<noteq> [] \<Longrightarrow> hd old \<notin> set s \<Longrightarrow> replace_from old new 0 s = s"
  by (induction s) (auto simp: prefix_def neq_Nil_conv)

lemma str_replace_no_head:
  "old \<noteq> [] \<Longrightarrow> hd old \<notin> set s \<Longrightarrow> str_replace s old new = s"
  by (simp add: str_replace_def replace_from_no_head)

lemma protect_plain:
  assumes "set s \<inter> set ''MDPSJILCevi'' = {}"
  shows "protect s = s"
proof -
  from assms have "CHR ''M'' \<notin> set s" "CHR ''D'' \<notin> set s" "CHR ''P'' \<notin> set s"
    "CHR ''S'' \<notin> set s" "CHR ''J'' \<notin> set s" "CHR ''I'' \<notin> set s" "CHR ''L'' \<notin> set s"
    "CHR ''C'' \<notin> set s" "CHR ''e'' \<notin> set s" "CHR ''v'' \<notin> set s" "CHR ''i'' \<notin> set s"
    by auto
  then show ?thesis
    by (simp add: protect_def abbreviations_def str_replace_no_head)
qed

lemma restore_plain:
  assumes "set s \<inter> set ''MDPSJILCEV'' = {}"
  shows "restore s = s"
proof -
  from assms have "CHR ''M'' \<notin> set s" "CHR ''D'' \<notin> set s" "CHR ''P'' \<notin> set s"
    "CHR ''S'' \<notin> set s" "CHR ''J'' \<notin> set s" "CHR ''I'' \<notin> set s" "CHR ''L'' \<notin> set s"
    "CHR ''C'' \<notin> set s" "CHR ''E'' \<notin> set s" "CHR ''V'' \<notin> set s"
    by auto
  then show ?thesis
    by (simp add: restore_def abbreviations_def str_replace_no_head)
qed

lemma re_split_run:
  "\<forall>c \<in> set s. \<not> is_space c \<Longrightarrow> s \<noteq> [] \<Longrightarrow>
     re_split False prev piece (s @ t) = re_split False (Some (last s)) (rev s @ piece) t"
proof (induction s arbitrary: prev piece)
  case Nil
  then show ?case by simp
next
  case (Cons c s)
  show ?case
  proof (cases "s = []")
    case True
    with Cons.prems show ?thesis by simp
  next
    case False
    with Cons.prems Cons.IH [of "Some c" "c # piece"] show ?thesis by simp
  qed
qed

lemma re_split_boundary:
  assumes "sentence_end p" "is_space c" "\<not> is_space d" "sentence_start d"
  shows "re_split False (Some p) piece (c # d # rest) =
           rev piece # re_split False (Some d) [d] rest"
  using assms by simp

lemma re_split_end: "re_split False prev piece [] = [rev piece]"
  by simp

lemma long_sentence_no_space: "\<forall>c \<in> set long_sentence. \<not> is_space c"
  by (auto simp: long_sentence_def is_space_def)

lemma last_long: "last long_sentence = CHR ''.''"
  by (simp add: long_sentence_def)

lemma set_long: "set long_sentence = {CHR ''B'', CHR ''b'', CHR ''.''}"
  by (auto simp: long_sentence_def)

lemma re_split_sentence:
  assumes "\<forall>c \<in> set (d # r). \<not> is_space c"
  shows "re_split False (Some d) [d] (r @ t) =
           re_split False (Some (last (d # r))) (rev (d # r)) t"
proof (cases "r = []")
  case True
  then show ?thesis by simp
next
  case False
  with assms re_split_run [of r "Some d" "[d]" t] show ?thesis by simp
qed

lemma example_page_pieces:
  "re_split False None [] (''Boat. '' @ long_sentence) = [''Boat.'', long_sentence]"
proof -
  obtain r where r: "long_sentence = CHR ''B'' # r"
    by (simp add: long_sentence_def)
  have nsp: "\<forall>c \<in> set (CHR ''B'' # r). \<not> is_space c"
    using long_sentence_no_space r by simp
  have "re_split False None [] (''Boat.'' @ (CHR '' '' # CHR ''B'' # r)) =
          re_split False (Some CHR ''.'') (rev ''Boat.'') (CHR '' '' # CHR ''B'' # r)"
    by (subst re_split_run) (simp_all add: is_space_def)
  also have "\<dots> = ''Boat.'' # re_split False (Some CHR ''B'') [CHR ''B''] (r @ [])"
    by (subst re_split_boundary) (simp_all add: is_space_def sentence_end_def sentence_start_def)
  also have "re_split False (Some CHR ''B'') [CHR ''B''] (r @ []) = [CHR ''B'' # r]"
    unfolding re_split_sentence [OF nsp] by simp
  finally show ?thesis by (simp add: r)
qed

lemma tail_page_pieces:
  "re_split False None [] (''Boat. '' @ long_sentence @ '' Tall oak.'') =
     [''Boat.'', long_sentence, ''Tall oak.'']"
proof -
  obtain r where r: "long_sentence = CHR ''B'' # r"
    by (simp add: long_sentence_def)
  have nsp: "\<forall>c \<in> set (CHR ''B'' # r). \<not> is_space c"
    using long_sentence_no_space r by simp
  have lst: "last (CHR ''B'' # r) = CHR ''.''"
    using last_long r by simp
  have "re_split False None [] (''Boat.'' @ (CHR '' '' # CHR ''B'' # r @ '' Tall oak.'')) =
          re_split False (Some CHR ''.'') (rev ''Boat.'')
            (CHR '' '' # CHR ''B'' # r @ '' Tall oak.'')"
    by (subst re_split_run) (simp_all add: is_space_def)
  also have "\<dots> = ''Boat.'' # re_split False (Some CHR ''B'') [CHR ''B''] (r @ '' Tall oak.'')"
    by (subst re_split_boundary) (simp_all add: is_space_def sentence_end_def sentence_start_def)
  also have "re_split False (Some CHR ''B'') [CHR ''B''] (r @ '' Tall oak.'') =
               re_split False (Some CHR ''.'') (rev (CHR ''B'' # r)) '' Tall oak.''"
    unfolding re_split_sentence [OF nsp] lst by simp
  also have "\<dots> = (CHR ''B'' # r) # [''Tall oak.'']"
    by (simp add: is_space_def sentence_end_def sentence_start_def)
  finally show ?thesis by (simp add: r)
qed

lemma protect_example: "protect (''Boat. '' @ long_sentence) = ''Boat. '' @ long_sentence"
  by (rule protect_plain) (simp add: set_long)

lemma protect_tail:
  "protect (''Boat. '' @ long_sentence @ '' Tall oak.'') = ''Boat. '' @ long_sentence @ '' Tall oak.''"
  by (rule protect_plain) (simp add: set_long)

lemma restore_short: "restore ''Boat.'' = ''Boat.''"
  by (rule restore_plain) simp

lemma restore_long: "restore long_sentence = long_sentence"
  by (rule restore_plain) (simp add: set_long)

lemma restore_tail: "restore ''Tall oak.'' = ''Tall oak.''"
  by (rule restore_plain) simp

lemma example_text_sentences:
  "split_into_sentences (''Boat. '' @ long_sentence) = [''Boat.'', long_sentence]"
  unfolding split_into_sentences_def protect_example example_page_pieces
  by (simp add: restore_short restore_long strip_long strip_short long_ne)

lemma tail_text_sentences:
  "split_into_sentences (''Boat. '' @ long_sentence @ '' Tall oak.'') =
     [''Boat.'', long_sentence, ''Tall oak.'']"
  unfolding split_into_sentences_def protect_tail tail_page_pieces
  by (simp add: restore_short restore_long restore_tail strip_long strip_short strip_tail long_ne)

subsection \<open>The overlap loop\<close>

lemma overlap_loop_suffix_gen:
  "\<exists>k. overlap_loop ov ps acc n = rev (take k ps) @ acc"
proof (induction ps arbitrary: acc n)
  case Nil
  show ?case by simp
next
  case (Cons p ps)
  show ?case
  proof (cases "n + length p \<le> ov")
    case True
    from Cons.IH [of "p # acc" "n + length p + 1"]
    obtain k where "overlap_loop ov ps (p # acc) (n + length p + 1) = rev (take k ps) @ p # acc"
      by blast
    then have "overlap_loop ov (p # ps) acc n = rev (take (Suc k) (p # ps)) @ acc"
      using True by simp
    then show ?thesis by blast
  next
    case False
    then have "overlap_loop ov (p # ps) acc n = rev (take 0 (p # ps)) @ acc" by simp
    then show ?thesis by blast
  qed
qed

lemma make_overlap_suffix: "suffix (make_overlap cfg cur) cur"
proof -
  obtain k where k: "make_overlap cfg cur = rev (take k (rev cur))"
    using overlap_loop_suffix_gen [of "CHUNK_OVERLAP cfg" "rev cur" "[]" 0]
    by (auto simp: make_overlap_def)
  have "rev (take k (rev cur)) = drop (length cur - k) cur"
    by (simp add: rev_take)
  then show ?thesis using k by (simp add: suffix_drop)
qed


lemma overlap_loop_bound:
  assumes "acc = [] \<longrightarrow> n = 0"
      and "acc \<noteq> [] \<longrightarrow> n = length (str_join '' '' acc) + 1 \<and> length (str_join '' '' acc) \<le> ov"
  shows "length (str_join '' '' (overlap_loop ov ps acc n)) \<le> ov"
  using assms
proof (induction ps arbitrary: acc n)
  case Nil
  then show ?case by (cases acc) auto
next
  case (Cons p ps)
  show ?case
  proof (cases "n + length p \<le> ov")
    case True
    have "length (str_join '' '' (p # acc)) = n + length p"
      using Cons.prems by (cases acc) (auto simp: length_str_join)
    with True Cons.IH [of "p # acc" "n + length p + 1"] show ?thesis
      by simp
  next
    case False
    then show ?thesis using Cons.prems by (cases acc) auto
  qed
qed

lemma make_overlap_bound: "length (str_join '' '' (make_overlap cfg cur)) \<le> CHUNK_OVERLAP cfg"
  unfolding make_overlap_def by (rule overlap_loop_bound) simp_all


subsection \<open>The loop invariant\<close>

lemma length_str_join_space:
  "xs \<noteq> [] \<Longrightarrow> length (str_join '' '' xs) = sum_list (map length xs) + length xs - 1"
  by (cases xs) (simp_all add: length_str_join)

lemma length_str_join_snoc:
  "length (str_join '' '' (xs @ [s])) =
     length (str_join '' '' xs) + length s + (if xs \<noteq> [] then 1 else 0)"
  by (cases "xs = []") (simp_all add: str_join_append)

lemma chunk_step_inv:
  assumes "chunker_inv cfg st"
  shows "chunker_inv cfg (chunk_step cfg d st s)"
proof -
  obtain chunks current n where st: "st = (chunks, current, n)"
    by (cases st) auto
  from assms st have n: "n = length (str_join '' '' current)"
    and last: "chunks \<noteq> [] \<Longrightarrow> current \<noteq> [] \<and>
           CHUNK_SIZE cfg < length (node_text (last chunks)) + 1 + length (str_join '' '' current)"
    by (auto simp: chunker_inv_def)
  show ?thesis
  proof (cases "strip s = []")
    case True
    with assms st show ?thesis by (simp add: Let_def)
  next
    case False
    note ne = this
    show ?thesis
    proof (cases "current \<noteq> [] \<and> CHUNK_SIZE cfg < n + length (strip s) + 1")
      case True
      let ?cur' = "make_overlap cfg current @ [strip s]"
      have step: "chunk_step cfg d st s =
          (chunks @ [make_node d (length chunks) current], ?cur',
           sum_list (map length ?cur') + length ?cur' - 1)"
        using True ne st by (simp add: Let_def)
      have len': "length (str_join '' '' ?cur') = sum_list (map length ?cur') + length ?cur' - 1"
        by (rule length_str_join_space) simp
      have ge: "length (strip s) \<le> length (str_join '' '' ?cur')"
        by (simp add: length_str_join_snoc)
      have nt: "node_text (make_node d (length chunks) current) = str_join '' '' current"
        by (simp add: make_node_def Let_def)
      have big: "CHUNK_SIZE cfg < length (str_join '' '' current) + 1 + length (str_join '' '' ?cur')"
        using True n ge by linarith
      show ?thesis
        unfolding step chunker_inv_def prod.case len' [symmetric]
        using big nt by simp
    next
      case False
      then have step: "chunk_step cfg d st s =
          (chunks, current @ [strip s], n + length (strip s) + (if current \<noteq> [] then 1 else 0))"
        using ne st by (auto simp: Let_def)
      show ?thesis
        using n last unfolding step chunker_inv_def
        by (auto simp: length_str_join_snoc)
    qed
  qed
qed

lemma foldl_chunk_step_inv:
  "chunker_inv cfg st \<Longrightarrow> chunker_inv cfg (foldl (chunk_step cfg d) st sents)"
  by (induction sents arbitrary: st) (simp_all add: chunk_step_inv)

lemma chunker_inv_init: "chunker_inv cfg ([], [], 0)"
  by (simp add: chunker_inv_def)

lemma finish_page_last:
  assumes "chunker_inv cfg st" "2 \<le> length (finish_page cfg d st)"
  shows "min (MIN_CHUNK_SIZE cfg) (CHUNK_SIZE cfg + 1) \<le> length (node_text (last (finish_page cfg d st)))"
proof -
  obtain chunks current n where st: "st = (chunks, current, n)"
    by (cases st) auto
  from assms(1) st have last: "chunks \<noteq> [] \<Longrightarrow> current \<noteq> [] \<and>
           CHUNK_SIZE cfg < length (node_text (last chunks)) + 1 + length (str_join '' '' current)"
    by (auto simp: chunker_inv_def)
  show ?thesis
  proof (cases "chunks = []")
    case True
    with assms(2) st show ?thesis by (auto simp: Let_def split: if_splits)
  next
    case False
    with last have cur: "current \<noteq> []" and big: "CHUNK_SIZE cfg < length (node_text (last chunks)) + 1 + length (str_join '' '' current)"
      by auto
    show ?thesis
    proof (cases "length (str_join '' '' current) < MIN_CHUNK_SIZE cfg")
      case True
      with False cur big st show ?thesis by (simp add: Let_def)
    next
      case False
      with cur st show ?thesis by (simp add: Let_def make_node_def)
    qed
  qed
qed


subsection \<open>Two pages, evaluated\<close>

text \<open>
  The sentence lists are computed from the page texts by \<open>split_into_sentences\<close>; the
  chunks are then those of the loop on these lists.
\<close>

lemma example_page_sentences:
  "split_into_sentences (doc_text example_page) = [''Boat.'', long_sentence]"
proof -
  have t: "doc_text example_page = ''Boat. '' @ long_sentence"
    by (simp add: example_page_def)
  show ?thesis unfolding t by (rule example_text_sentences)
qed

lemma tail_page_sentences:
  "split_into_sentences (doc_text tail_page) = [''Boat.'', long_sentence, ''Tall oak.'']"
proof -
  have t: "doc_text tail_page = ''Boat. '' @ long_sentence @ '' Tall oak.''"
    by (simp add: tail_page_def)
  show ?thesis unfolding t by (rule tail_text_sentences)
qed

lemma two_sentence_page:
  "page_chunks default_config d [''Boat.'', long_sentence] =
     [make_node d 0 [''Boat.''], make_node d 1 [''Boat.'', long_sentence]]"
  by (simp add: page_chunks_def default_config_def Let_def strip_long strip_short length_long
      long_ne make_overlap_def)

lemma three_sentence_page:
  "page_chunks default_config d [''Boat.'', long_sentence, ''Tall oak.''] =
     [make_node d 0 [''Boat.''],
      (make_node d 1 [''Boat.'', long_sentence])
        \<lparr> node_text := ''Boat. '' @ long_sentence @ '' Tall oak.'',
          chunk_size := 411, num_sentences := 3 \<rparr>]"
  by (simp add: page_chunks_def default_config_def Let_def strip_long strip_short strip_tail
      length_long long_ne make_overlap_def make_node_def)

lemma example_page_chunks:
  "snd (create_needle_chunks default_config [example_page]) =
     [make_node example_page 0 [''Boat.''],
      make_node example_page 1 [''Boat.'', long_sentence]]"
  by (simp add: create_needle_chunks_def example_page_sentences two_sentence_page)

subsection \<open>The tail merge\<close>

text \<open>
  Claim C3, as amended. The minimum size is enforced on the tail of a page only: when a
  page yields two or more child units, the last one is at least \<open>MIN_CHUNK_SIZE\<close> long
  (for a configuration with \<open>MIN_CHUNK_SIZE \<le> CHUNK_SIZE\<close>), because a shorter tail is
  appended to the unit before it. Units closed earlier in the page may be shorter.
\<close>

theorem tail_chunk_not_short:
  assumes "MIN_CHUNK_SIZE cfg \<le> CHUNK_SIZE cfg"
      and "2 \<le> length (page_chunks cfg d sentences)"
  shows "MIN_CHUNK_SIZE cfg \<le> length (node_text (last (page_chunks cfg d sentences)))"
proof -
  have "chunker_inv cfg (foldl (chunk_step cfg d) ([], [], 0) sentences)"
    by (rule foldl_chunk_step_inv) (rule chunker_inv_init)
  from finish_page_last [OF this] assms show ?thesis
    by (simp add: page_chunks_def)
qed

text \<open>
  The theorem at the default configuration, on the page of three sentences, whose short
  tail is merged into the second unit.
\<close>

theorem tail_chunk_not_short_witness:
  "MIN_CHUNK_SIZE default_config \<le> CHUNK_SIZE default_config
   \<and> 2 \<le> length (page_chunks default_config tail_page
                    (split_into_sentences (doc_text tail_page)))
   \<and> MIN_CHUNK_SIZE default_config
       \<le> length (node_text (last (page_chunks default_config tail_page
                                   (split_into_sentences (doc_text tail_page)))))"
proof -
  have h1: "MIN_CHUNK_SIZE default_config \<le> CHUNK_SIZE default_config"
    by (simp add: default_config_def)
  have h2: "2 \<le> length (page_chunks default_config tail_page
                    (split_into_sentences (doc_text tail_page)))"
    by (simp add: tail_page_sentences three_sentence_page)
  from tail_chunk_not_short [OF h1 h2] h1 h2 show ?thesis by simp
qed

text \<open>
  Claim C3 as stated fails: with the default configuration, the page whose text is a
  sentence of 5 characters followed by one of 395 gives two child units, and the first is
  5 characters long, below the minimum of 200.
\<close>

theorem short_inner_chunk_counterexample:
  "length (snd (create_needle_chunks default_config [example_page])) = 2
   \<and> length (node_text (snd (create_needle_chunks default_config [example_page]) ! 0)) = 5
   \<and> \<not> MIN_CHUNK_SIZE default_config
         \<le> length (node_text (snd (create_needle_chunks default_config [example_page]) ! 0))"
  unfolding example_page_chunks by (simp add: make_node_def default_config_def)

subsection \<open>The overlap\<close>

text \<open>
  Claim C8. Whenever the loop closes a unit (the current sentences are not empty and the
  next sentence would pass the chunk size), the next unit starts with sentences \<open>ov\<close>
  followed by the new sentence, where \<open>ov\<close> is a suffix of the sentence list of the closed
  unit: whole trailing sentences, never a part of one. Joined with single spaces, as they
  stand at the head of the new unit and at the end of the closed one, they are at most
  \<open>CHUNK_OVERLAP\<close> long.
\<close>

theorem overlap_invariant:
  assumes "current \<noteq> []" and "strip sent \<noteq> []"
      and "CHUNK_SIZE cfg < n + length (strip sent) + 1"
  shows "\<exists>ov. chunk_step cfg d (chunks, current, n) sent =
                (chunks @ [make_node d (length chunks) current], ov @ [strip sent],
                 length (str_join '' '' (ov @ [strip sent])))
            \<and> suffix ov current
            \<and> length (str_join '' '' ov) \<le> CHUNK_OVERLAP cfg
            \<and> suffix (str_join '' '' ov) (node_text (make_node d (length chunks) current))
            \<and> prefix (str_join '' '' ov) (str_join '' '' (ov @ [strip sent]))"
proof -
  let ?ov = "make_overlap cfg current"
  have "chunk_step cfg d (chunks, current, n) sent =
                (chunks @ [make_node d (length chunks) current], ?ov @ [strip sent],
                 length (str_join '' '' (?ov @ [strip sent])))"
    using assms by (simp add: Let_def length_str_join_space del: str_join.simps)
  moreover have "suffix ?ov current" by (rule make_overlap_suffix)
  moreover have "length (str_join '' '' ?ov) \<le> CHUNK_OVERLAP cfg" by (rule make_overlap_bound)
  moreover have "suffix (str_join '' '' ?ov) (node_text (make_node d (length chunks) current))"
    by (simp add: make_node_def Let_def str_join_suffix make_overlap_suffix)
  moreover have "prefix (str_join '' '' ?ov) (str_join '' '' (?ov @ [strip sent]))"
    by (rule str_join_prefix)
  ultimately show ?thesis by blast
qed

text \<open>The theorem at the default configuration: a unit of one short sentence is closed.\<close>

theorem overlap_invariant_witness:
  "[''Boat.''] \<noteq> [] \<and> strip long_sentence \<noteq> []
   \<and> CHUNK_SIZE default_config < 5 + length (strip long_sentence) + 1
   \<and> (\<exists>ov. chunk_step default_config example_page ([], [''Boat.''], 5) long_sentence =
              ([] @ [make_node example_page (length ([] :: text_node list)) [''Boat.'']],
               ov @ [strip long_sentence],
               length (str_join '' '' (ov @ [strip long_sentence])))
          \<and> suffix ov [''Boat.'']
          \<and> length (str_join '' '' ov) \<le> CHUNK_OVERLAP default_config
          \<and> suffix (str_join '' '' ov)
               (node_text (make_node example_page (length ([] :: text_node list)) [''Boat.'']))
          \<and> prefix (str_join '' '' ov) (str_join '' '' (ov @ [strip long_sentence])))"
proof -
  have h1: "[''Boat.''] \<noteq> ([] :: string list)" by simp
  have h2: "strip long_sentence \<noteq> []" by (simp add: strip_long long_ne)
  have h3: "CHUNK_SIZE default_config < 5 + length (strip long_sentence) + 1"
    by (simp add: strip_long length_long default_config_def)
  from overlap_invariant [OF h1 h2 h3, of example_page "[]"] h1 h2 h3 show ?thesis
    by blast
qed


section \<open>Properties of the similarity retriever\<close>

subsection \<open>Scores and ranking\<close>


lemma compute_similarities_well_formed:
  "list_all (well_formed emb q) rs \<Longrightarrow>
     compute_similarities emb sim q rs = Inr (map (\<lambda>r. (computed_score emb sim q r, r)) rs)"
  by (induction rs)
     (auto simp: computed_score_def cosine_similarity_def well_formed_def
           split: stored_embedding.splits)

















section \<open>Properties of the detail engine\<close>

subsection \<open>Counting the parents\<close>

lemma parent_count_Cons:
  "parent_count P (c # cs) = (if chunk_parent_id c = Some P then 1 else 0) + parent_count P cs"
  by (simp add: parent_count_def)

lemma parent_count_Nil: "parent_count P [] = 0"
  by (simp add: parent_count_def)

lemma map_of_count_parents:
  "P \<noteq> [] \<Longrightarrow>
   map_of (count_parents cs d) P =
     (if parent_count P cs = 0 then map_of d P
      else Some ((case map_of d P of Some c \<Rightarrow> c | None \<Rightarrow> 0) + parent_count P cs))"
proof (induction cs arbitrary: d)
  case Nil
  show ?case by (simp add: parent_count_Nil)
next
  case (Cons c cs)
  show ?case
  proof (cases "chunk_parent_id c")
    case None
    with Cons show ?thesis by (simp add: parent_count_Cons)
  next
    case (Some q)
    show ?thesis
    proof (cases "q = []")
      case True
      with Some Cons show ?thesis by (auto simp: parent_count_Cons)
    next
      case False
      show ?thesis
      proof (cases "q = P")
        case True
        with Some False Cons.IH [OF Cons.prems] show ?thesis
          by (simp add: parent_count_Cons update_conv' split: option.splits)
      next
        case ne: False
        with Some False Cons.IH [OF Cons.prems] show ?thesis
          by (simp add: parent_count_Cons update_conv')
      qed
    qed
  qed
qed

lemma distinct_count_parents:
  "distinct (map fst d) \<Longrightarrow> distinct (map fst (count_parents cs d))"
  by (induction cs arbitrary: d) (auto simp: distinct_update split: option.splits)

lemma parent_count_pos:
  "0 < parent_count P chunks \<longleftrightarrow> Some P \<in> chunk_parent_id ` set chunks"
  by (induction chunks) (auto simp: parent_count_Cons parent_count_Nil)

lemma in_parents_to_merge:
  assumes "P \<noteq> []"
  shows "P \<in> set (parents_to_merge True T chunks) \<longleftrightarrow>
           0 < parent_count P chunks \<and> T \<le> int (parent_count P chunks)"
proof -
  let ?items = "count_parents chunks []"
  have d: "distinct (map fst ?items)" by (rule distinct_count_parents) simp
  have m: "map_of ?items P = (if parent_count P chunks = 0 then None else Some (parent_count P chunks))"
    using map_of_count_parents [OF assms, of chunks "[]"] by simp
  have "P \<in> set (parents_to_merge True T chunks) \<longleftrightarrow> (\<exists>c. (P, c) \<in> set ?items \<and> T \<le> int c)"
    by (auto simp: parents_to_merge_def image_iff)
  also have "\<dots> \<longleftrightarrow> (\<exists>c. map_of ?items P = Some c \<and> T \<le> int c)"
    using d by simp
  also have "\<dots> \<longleftrightarrow> 0 < parent_count P chunks \<and> T \<le> int (parent_count P chunks)"
    unfolding m by auto
  finally show ?thesis .
qed

lemma parents_to_merge_off: "parents_to_merge False T chunks = []"
  by (simp add: parents_to_merge_def)

subsection \<open>The full-page blocks\<close>

lemma full_page_texts_append:
  "full_page_texts P (xs @ ys) = full_page_texts P xs @ full_page_texts P ys"
  by (simp add: full_page_texts_def map_filter_def)

lemma full_page_texts_single:
  "full_page_texts P [FullPage q pg h t] = (if q = P then [t] else [])"
  by (simp add: full_page_texts_def map_filter_def)

lemma full_page_texts_chunk_parts:
  "full_page_texts P (map chunk_part ics) = []"
  by (induction ics) (auto simp: full_page_texts_def map_filter_def chunk_part_def)

lemma full_page_texts_banner: "full_page_texts P banner = []"
  by (simp add: full_page_texts_def map_filter_def banner_def)

lemma add_parent_pages_texts:
  "full_page_texts P (fst (add_parent_pages docs M cs (parts, added))) =
     full_page_texts P parts @
       (if P \<in> set M \<and> P \<notin> set added \<and> get_parent_context docs P \<noteq> []
           \<and> Some P \<in> chunk_parent_id ` set cs
        then [get_parent_context docs P] else [])"
proof (induction cs arbitrary: parts added)
  case Nil
  show ?case by simp
next
  case (Cons c cs)
  show ?case
  proof (cases "chunk_parent_id c")
    case None
    with Cons.IH [of parts added] show ?thesis by auto
  next
    case (Some q)
    show ?thesis
    proof (cases "q \<in> set M \<and> q \<notin> set added \<and> get_parent_context docs q \<noteq> []")
      case True
      let ?parts' = "parts @ [FullPage q (chunk_page_num c) (header_of (chunk_metadata c))
                                (get_parent_context docs q)]"
      have step: "add_parent_pages docs M (c # cs) (parts, added) =
                    add_parent_pages docs M cs (?parts', added @ [q])"
        using Some True by (simp add: Let_def set_add_def)
      show ?thesis
        unfolding step Cons.IH [of ?parts' "added @ [q]"]
        using Some True
        by (auto simp: full_page_texts_append full_page_texts_single)
    next
      case False
      then have step: "add_parent_pages docs M (c # cs) (parts, added) =
                    add_parent_pages docs M cs (parts, added)"
        using Some by (auto simp: Let_def)
      show ?thesis
        unfolding step Cons.IH [of parts added]
        using Some False by auto
    qed
  qed
qed

lemma add_parent_pages_added:
  assumes "distinct added"
  shows "distinct (snd (add_parent_pages docs M cs (parts, added)))
       \<and> set (snd (add_parent_pages docs M cs (parts, added))) =
           set added \<union> {q \<in> set M. get_parent_context docs q \<noteq> []
                                  \<and> Some q \<in> chunk_parent_id ` set cs}
       \<and> length (filter is_full_page (fst (add_parent_pages docs M cs (parts, added)))) +
           length added =
         length (filter is_full_page parts) +
           length (snd (add_parent_pages docs M cs (parts, added)))"
  using assms
proof (induction cs arbitrary: parts added)
  case Nil
  then show ?case by simp
next
  case (Cons c cs)
  show ?case
  proof (cases "chunk_parent_id c")
    case None
    with Cons.IH [OF Cons.prems, of parts] show ?thesis by auto
  next
    case (Some q)
    show ?thesis
    proof (cases "q \<in> set M \<and> q \<notin> set added \<and> get_parent_context docs q \<noteq> []")
      case True
      let ?parts' = "parts @ [FullPage q (chunk_page_num c) (header_of (chunk_metadata c))
                                (get_parent_context docs q)]"
      have step: "add_parent_pages docs M (c # cs) (parts, added) =
                    add_parent_pages docs M cs (?parts', added @ [q])"
        using Some True by (simp add: Let_def set_add_def)
      have d: "distinct (added @ [q])" using True Cons.prems by simp
      show ?thesis
        unfolding step using Cons.IH [OF d, of ?parts'] Some True by auto
    next
      case False
      then have step: "add_parent_pages docs M (c # cs) (parts, added) =
                    add_parent_pages docs M cs (parts, added)"
        using Some by (auto simp: Let_def)
      show ?thesis
        unfolding step using Cons.IH [OF Cons.prems, of parts] Some False by auto
    qed
  qed
qed

lemma not_full_chunk_part: "\<not> is_full_page (chunk_part ic)"
  by (cases ic) (simp add: chunk_part_def)

lemma no_full_page_chunk_parts: "filter is_full_page (map chunk_part ics @ banner) = []"
  by (simp add: filter_map o_def not_full_chunk_part banner_def)

lemma build_context_texts:
  assumes "P \<noteq> []"
  shows "full_page_texts P (fst (build_context docs use T chunks)) =
     (if use \<and> 0 < parent_count P chunks \<and> T \<le> int (parent_count P chunks)
           \<and> get_parent_context docs P \<noteq> []
      then [get_parent_context docs P] else [])"
proof (cases use)
  case False
  then show ?thesis
    by (simp add: build_context_def parents_to_merge_off full_page_texts_chunk_parts)
next
  case True
  then have u: "use = True" by simp
  let ?M = "parents_to_merge True T chunks"
  let ?parts = "map chunk_part (List.enumerate 1 chunks)"
  note mem = in_parents_to_merge [OF assms, of T chunks]
  show ?thesis
  proof (cases "?M = []")
    case e: True
    then have "P \<notin> set ?M" by simp
    with mem have "\<not> (0 < parent_count P chunks \<and> T \<le> int (parent_count P chunks))" by simp
    with e show ?thesis
      unfolding u by (auto simp: build_context_def full_page_texts_chunk_parts)
  next
    case ne: False
    have bc: "fst (build_context docs True T chunks) =
                fst (add_parent_pages docs ?M chunks (?parts @ banner, []))"
      using ne by (simp add: build_context_def Let_def split: prod.splits)
    show ?thesis
      unfolding u bc add_parent_pages_texts
      using mem
      by (auto simp: full_page_texts_append full_page_texts_chunk_parts full_page_texts_banner
                     parent_count_pos)
  qed
qed

lemma build_context_texts_empty:
  assumes "get_parent_context docs P = []"
  shows "full_page_texts P (fst (build_context docs use T chunks)) = []"
proof (cases "parents_to_merge use T chunks = []")
  case True
  then show ?thesis by (simp add: build_context_def full_page_texts_chunk_parts)
next
  case False
  then have bc: "fst (build_context docs use T chunks) =
      fst (add_parent_pages docs (parents_to_merge use T chunks) chunks
             (map chunk_part (List.enumerate 1 chunks) @ banner, []))"
    by (simp add: build_context_def Let_def split: prod.splits)
  show ?thesis
    unfolding bc add_parent_pages_texts using assms
    by (simp add: full_page_texts_append full_page_texts_chunk_parts full_page_texts_banner)
qed

lemma build_context_added:
  "distinct (snd (snd (build_context docs use T chunks)))
   \<and> set (snd (snd (build_context docs use T chunks))) =
       {q \<in> set (parents_to_merge use T chunks).
          get_parent_context docs q \<noteq> [] \<and> Some q \<in> chunk_parent_id ` set chunks}
   \<and> length (filter is_full_page (fst (build_context docs use T chunks))) =
       length (snd (snd (build_context docs use T chunks)))"
proof (cases "parents_to_merge use T chunks = []")
  case True
  then show ?thesis
    by (simp add: build_context_def filter_map o_def not_full_chunk_part)
next
  case False
  let ?M = "parents_to_merge use T chunks"
  let ?parts = "map chunk_part (List.enumerate 1 chunks)"
  have bc: "build_context docs use T chunks =
      (fst (add_parent_pages docs ?M chunks (?parts @ banner, [])),
       map chunk_source (List.enumerate 1 chunks),
       snd (add_parent_pages docs ?M chunks (?parts @ banner, [])))"
    using False by (simp add: build_context_def Let_def split: prod.splits)
  from add_parent_pages_added [of "[]" docs ?M chunks "?parts @ banner"]
  show ?thesis unfolding bc fst_conv snd_conv no_full_page_chunk_parts by simp
qed

lemma build_context_added_le:
  "length (snd (snd (build_context docs use T chunks))) \<le> length (parents_to_merge use T chunks)"
proof -
  let ?added = "snd (snd (build_context docs use T chunks))"
  let ?M = "parents_to_merge use T chunks"
  from build_context_added [of docs use T chunks]
  have d: "distinct ?added" and s: "set ?added \<subseteq> set ?M" by auto
  have "length ?added = card (set ?added)" using d by (simp add: distinct_card)
  also have "\<dots> \<le> card (set ?M)" using s by (simp add: card_mono)
  also have "\<dots> \<le> length ?M" by (rule card_length)
  finally show ?thesis .
qed

lemma build_context_sources:
  "fst (snd (build_context docs use T chunks)) = map chunk_source (List.enumerate 1 chunks)"
  by (simp add: build_context_def Let_def split: prod.splits)

lemma get_parent_context_absent: "docs P = None \<Longrightarrow> get_parent_context docs P = []"
  by (simp add: get_parent_context_def)

subsection \<open>The answer\<close>

lemma search_chunks_resolved:
  "search_chunks w cfg query (Some (case k of None \<Rightarrow> NEEDLE_TOP_K cfg | Some k' \<Rightarrow> k')) =
     search_chunks w cfg query k"
  by (cases k) (simp_all add: search_chunks_def)

lemma needle_answer_query_found:
  assumes "search_chunks w cfg query top_k_opt = Inr chunks" and "chunks \<noteq> []"
  shows "needle_answer_query w cfg query top_k_opt use T_opt =
     Inr \<lparr> answer =
             (case needle_llm w
                     (needle_user_prompt
                        (fst (build_context (parent_docs w) use
                                (case T_opt of None \<Rightarrow> AUTO_MERGE_THRESHOLD cfg | Some t \<Rightarrow> t)
                                chunks)) query) of
                Inr reply \<Rightarrow> reply
              | Inl e \<Rightarrow> generation_failed_message),
           sources = map chunk_source (List.enumerate 1 chunks),
           chunks_used = length chunks,
           parent_pages_used =
             length (snd (snd (build_context (parent_docs w) use
                                (case T_opt of None \<Rightarrow> AUTO_MERGE_THRESHOLD cfg | Some t \<Rightarrow> t)
                                chunks))) \<rparr>"
proof -
  let ?T = "case T_opt of None \<Rightarrow> AUTO_MERGE_THRESHOLD cfg | Some t \<Rightarrow> t"
  obtain ctx srcs added where bc: "build_context (parent_docs w) use ?T chunks = (ctx, srcs, added)"
    by (cases "build_context (parent_docs w) use ?T chunks") auto
  have srcs: "srcs = map chunk_source (List.enumerate 1 chunks)"
    using build_context_sources [of "parent_docs w" use ?T chunks] bc by simp
  show ?thesis
    unfolding needle_answer_query_def Let_def search_chunks_resolved assms(1)
    using assms(2) bc srcs
    by (simp split: sum.splits)
qed

lemma needle_answer_query_not_found:
  assumes "search_chunks w cfg query top_k_opt = Inr []"
  shows "needle_answer_query w cfg query top_k_opt use T_opt = Inr not_found_result"
  unfolding needle_answer_query_def Let_def search_chunks_resolved assms
  by (simp add: not_found_result_def)

lemma needle_answer_query_raises:
  assumes "search_chunks w cfg query top_k_opt = Inl e"
  shows "needle_answer_query w cfg query top_k_opt use T_opt = Inl e"
  unfolding needle_answer_query_def Let_def search_chunks_resolved assms
  by simp

subsection \<open>The example retrieval, evaluated\<close>

lemma example_search:
  "search_chunks (example_env docs) default_config query None = Inr example_chunks"
  by (simp add: search_chunks_def example_env_def example_chunks_def mk_chunk_def
      default_config_def cosine_similarity_def exact_cosine_def dot_def norm2_def
      sort_by_score_def py_slice_to_def)

lemma example_parent_ids:
  "map chunk_parent_id example_chunks =
     [Some ''page_2'', Some ''page_2'', Some ''page_3'', Some ''page_2'']"
  by (simp add: example_chunks_def mk_chunk_def chunk_parent_id_def chunk_metadata_def)

lemma example_count_page_2: "parent_count ''page_2'' example_chunks = 3"
  by (simp add: parent_count_def example_chunks_def mk_chunk_def chunk_parent_id_def
      chunk_metadata_def)

lemma example_count_page_3: "parent_count ''page_3'' example_chunks = 1"
  by (simp add: parent_count_def example_chunks_def mk_chunk_def chunk_parent_id_def
      chunk_metadata_def)

lemma example_docstore_page_2:
  "get_parent_context example_docstore ''page_2'' = ''Full text of page two.''"
  by (simp add: get_parent_context_def example_docstore_def)

lemma example_to_merge: "parents_to_merge True 3 example_chunks = [''page_2'']"
  by (simp add: parents_to_merge_def example_chunks_def mk_chunk_def chunk_parent_id_def
      chunk_metadata_def AList.update.simps)

lemma example_context_added:
  "snd (snd (build_context example_docstore True 3 example_chunks)) = [''page_2'']"
  by (simp add: build_context_def example_to_merge Let_def)
     (simp add: example_chunks_def mk_chunk_def chunk_parent_id_def chunk_metadata_def
        get_parent_context_def example_docstore_def set_add_def)

subsection \<open>Auto-merge\<close>

text \<open>
  Claim C1, as amended. With auto-merge enabled and threshold \<open>T\<close>, for every non-empty
  parent id \<open>P\<close> that occurs among the retrieved chunks: when at least \<open>T\<close> retrieved
  chunks have the parent \<open>P\<close> and the docstore yields a non-empty text for \<open>P\<close>, the
  context holds exactly one full-page block for \<open>P\<close>, carrying that text, however many
  children of \<open>P\<close> were retrieved; when fewer than \<open>T\<close> have it, or the docstore yields no
  text for \<open>P\<close>, the context holds no full-page block for \<open>P\<close>.
\<close>

theorem auto_merge_threshold:
  assumes "P \<noteq> []" and "Some P \<in> chunk_parent_id ` set chunks"
  shows "full_page_texts P (fst (build_context docs True T chunks)) =
           (if T \<le> int (parent_count P chunks) \<and> get_parent_context docs P \<noteq> []
            then [get_parent_context docs P] else [])"
  using build_context_texts [OF assms(1), of docs True T chunks] assms(2)
  by (simp add: parent_count_pos)

text \<open>
  The theorem on the example retrieval with threshold 3: \<open>page_2\<close>, with three chunks,
  is added once; \<open>page_3\<close>, with one chunk, is not.
\<close>

theorem auto_merge_threshold_witness:
  "''page_2'' \<noteq> [] \<and> Some ''page_2'' \<in> chunk_parent_id ` set example_chunks
   \<and> full_page_texts ''page_2'' (fst (build_context example_docstore True 3 example_chunks)) =
       [''Full text of page two.'']
   \<and> ''page_3'' \<noteq> [] \<and> Some ''page_3'' \<in> chunk_parent_id ` set example_chunks
   \<and> full_page_texts ''page_3'' (fst (build_context example_docstore True 3 example_chunks)) = []"
proof -
  have ids: "chunk_parent_id ` set example_chunks = {Some ''page_2'', Some ''page_3''}"
    unfolding set_map [symmetric] example_parent_ids by auto
  have a1: "''page_2'' \<noteq> []" and b1: "''page_3'' \<noteq> []" by simp_all
  have a2: "Some ''page_2'' \<in> chunk_parent_id ` set example_chunks"
    and b2: "Some ''page_3'' \<in> chunk_parent_id ` set example_chunks"
    unfolding ids by simp_all
  from auto_merge_threshold [OF a1 a2, of example_docstore 3]
       auto_merge_threshold [OF b1 b2, of example_docstore 3]
  show ?thesis
    using a2 b2 by (simp add: example_count_page_2 example_count_page_3 example_docstore_page_2)
qed

text \<open>
  Claim C1 as stated fails: with an empty docstore (what \<open>_load_parent_docs\<close> returns when
  the file is missing), the parent \<open>page_2\<close> has three retrieved chunks, the threshold is
  3, and its full text is not in the context.
\<close>

theorem auto_merge_missing_parent_counterexample:
  "3 \<le> int (parent_count ''page_2'' example_chunks)
   \<and> full_page_texts ''page_2'' (fst (build_context Map.empty True 3 example_chunks)) = []"
  using build_context_texts [of "''page_2''" Map.empty True 3 example_chunks]
  by (simp add: example_count_page_2 get_parent_context_def)

text \<open>
  Claim C10. When retrieval gave chunks and the parent \<open>P\<close> is absent from the docstore
  or its stored document yields the empty text, \<open>answer_query\<close> returns an answer object
  (no error), the context holds no full-page block for \<open>P\<close>, \<open>P\<close> is not among
  \<open>parents_already_added\<close>, and \<open>parent_pages_used\<close> is the number of full-page blocks
  appended, which is at most the number of parents that met the threshold.
\<close>

theorem missing_parent_skipped:
  assumes "search_chunks w cfg query top_k_opt = Inr chunks" and "chunks \<noteq> []"
      and "parent_docs w P = None \<or> get_parent_context (parent_docs w) P = []"
      and "T = (case T_opt of None \<Rightarrow> AUTO_MERGE_THRESHOLD cfg | Some t \<Rightarrow> t)"
  shows "\<exists>r. needle_answer_query w cfg query top_k_opt use T_opt = Inr r
           \<and> full_page_texts P (fst (build_context (parent_docs w) use T chunks)) = []
           \<and> P \<notin> set (snd (snd (build_context (parent_docs w) use T chunks)))
           \<and> parent_pages_used r =
               length (filter is_full_page (fst (build_context (parent_docs w) use T chunks)))
           \<and> parent_pages_used r \<le> length (parents_to_merge use T chunks)"
proof -
  from assms(3) have e: "get_parent_context (parent_docs w) P = []"
    by (auto simp: get_parent_context_absent)
  note added = build_context_added [of "parent_docs w" use T chunks]
  have "P \<notin> set (snd (snd (build_context (parent_docs w) use T chunks)))"
    using added e by simp
  moreover have "length (snd (snd (build_context (parent_docs w) use T chunks))) =
      length (filter is_full_page (fst (build_context (parent_docs w) use T chunks)))"
    using added by simp
  ultimately show ?thesis
    unfolding needle_answer_query_found [OF assms(1,2)] assms(4) [symmetric]
    using build_context_texts_empty [OF e] build_context_added_le [of "parent_docs w" use T chunks]
    by simp
qed

text \<open>
  The theorem on the example retrieval with an empty docstore: \<open>page_2\<close> meets the
  threshold and is skipped.
\<close>

theorem missing_parent_skipped_witness:
  "search_chunks (example_env Map.empty) default_config ''When?'' None = Inr example_chunks
   \<and> example_chunks \<noteq> []
   \<and> (parent_docs (example_env Map.empty) ''page_2'' = None
        \<or> get_parent_context (parent_docs (example_env Map.empty)) ''page_2'' = [])
   \<and> (3::int) = (case None of None \<Rightarrow> AUTO_MERGE_THRESHOLD default_config | Some t \<Rightarrow> t)
   \<and> ''page_2'' \<in> set (parents_to_merge True 3 example_chunks)
   \<and> (\<exists>r. needle_answer_query (example_env Map.empty) default_config ''When?'' None True None
             = Inr r
          \<and> full_page_texts ''page_2''
               (fst (build_context (parent_docs (example_env Map.empty)) True 3 example_chunks)) = []
          \<and> ''page_2'' \<notin> set (snd (snd (build_context (parent_docs (example_env Map.empty))
                                            True 3 example_chunks)))
          \<and> parent_pages_used r =
               length (filter is_full_page
                 (fst (build_context (parent_docs (example_env Map.empty)) True 3 example_chunks)))
          \<and> parent_pages_used r \<le> length (parents_to_merge True 3 example_chunks))"
proof -
  have h1: "search_chunks (example_env Map.empty) default_config ''When?'' None = Inr example_chunks"
    by (rule example_search)
  have h2: "example_chunks \<noteq> []" by (simp add: example_chunks_def)
  have h3: "parent_docs (example_env Map.empty) ''page_2'' = None
        \<or> get_parent_context (parent_docs (example_env Map.empty)) ''page_2'' = []"
    by (simp add: example_env_def)
  have h4: "(3::int) = (case None of None \<Rightarrow> AUTO_MERGE_THRESHOLD default_config | Some t \<Rightarrow> t)"
    by (simp add: default_config_def)
  have h5: "''page_2'' \<in> set (parents_to_merge True 3 example_chunks)"
    by (simp add: example_to_merge)
  from missing_parent_skipped [OF h1 h2 h3 h4, of True] h1 h2 h3 h4 h5
  show ?thesis by blast
qed

subsection \<open>Retrieval failures\<close>

text \<open>
  Claim C4, as amended. When the embedding call succeeded and the chunk table is empty
  or the fetch from the datastore raised, \<open>answer_query\<close> returns the answer object with
  the fixed "not found" text, no sources, \<open>chunks_used = 0\<close> and \<open>parent_pages_used = 0\<close>.
  When the embedding call raises, its exception leaves \<open>answer_query\<close>: the call stands
  before the \<open>try\<close> of \<open>search_chunks\<close>.
\<close>

theorem retrieval_failure_result:
  "(embed w query = Inr q \<and> (chunks_table w = Inr [] \<or> chunks_table w = Inl e)
      \<longrightarrow> needle_answer_query w cfg query top_k_opt use T_opt = Inr not_found_result)
   \<and> (embed w query = Inl e'
      \<longrightarrow> needle_answer_query w cfg query top_k_opt use T_opt = Inl e')"
proof (intro conjI impI)
  assume "embed w query = Inr q \<and> (chunks_table w = Inr [] \<or> chunks_table w = Inl e)"
  then have "search_chunks w cfg query top_k_opt = Inr []"
    by (auto simp: search_chunks_def)
  then show "needle_answer_query w cfg query top_k_opt use T_opt = Inr not_found_result"
    by (rule needle_answer_query_not_found)
next
  assume "embed w query = Inl e'"
  then have "search_chunks w cfg query top_k_opt = Inl e'"
    by (simp add: search_chunks_def)
  then show "needle_answer_query w cfg query top_k_opt use T_opt = Inl e'"
    by (rule needle_answer_query_raises)
qed

text \<open>The theorem on an empty table and on a failing embedding call.\<close>

theorem retrieval_failure_result_witness:
  "embed env_empty_table ''anything'' = Inr [1, 0]
   \<and> (chunks_table env_empty_table = Inr [] \<or> chunks_table env_empty_table = Inl DatastoreError)
   \<and> needle_answer_query env_empty_table default_config ''anything'' None True None
       = Inr not_found_result
   \<and> embed env_embed_fails ''What time?'' = Inl EmbeddingError
   \<and> needle_answer_query env_embed_fails default_config ''What time?'' None True None
       = Inl EmbeddingError"
proof -
  have h1: "embed env_empty_table ''anything'' = Inr [1, 0]
    \<and> (chunks_table env_empty_table = Inr [] \<or> chunks_table env_empty_table = Inl DatastoreError)"
    by (simp add: env_empty_table_def example_env_def)
  have h2: "embed env_embed_fails ''What time?'' = Inl EmbeddingError"
    by (simp add: env_embed_fails_def)
  from retrieval_failure_result [where w = env_empty_table and query = "''anything''"
          and q = "[1, 0]" and e = DatastoreError and cfg = default_config
          and top_k_opt = None and use = True and T_opt = None]
       retrieval_failure_result [where w = env_embed_fails and query = "''What time?''"
          and e' = EmbeddingError and cfg = default_config
          and top_k_opt = None and use = True and T_opt = None]
       h1 h2
  show ?thesis by blast
qed

text \<open>
  Claim C4 as stated fails: with an embedding call that raises, \<open>answer_query\<close> raises
  instead of returning the "not found" object.
\<close>

theorem embedding_failure_counterexample:
  "needle_answer_query env_embed_fails default_config ''anything'' None True None
     = Inl EmbeddingError"
  by (simp add: needle_answer_query_def search_chunks_def env_embed_fails_def)


section \<open>Properties of the overview engine\<close>

lemma search_summaries_resolved:
  "search_summaries w cfg query (Some (case k of None \<Rightarrow> SUMMARY_TOP_K cfg | Some k' \<Rightarrow> k')) =
     search_summaries w cfg query k"
  by (cases k) (simp_all add: search_summaries_def)

lemma summary_answer_query_found:
  assumes "search_summaries w cfg query top_k_opt = Inr summaries" and "summaries \<noteq> []"
  shows "summary_answer_query w cfg query top_k_opt =
     Inr \<lparr> summary_answer =
             (case summary_llm w (summary_user_prompt summaries query) of
                Inr reply \<Rightarrow> reply
              | Inl e \<Rightarrow> generation_failed_message),
           summary_sources = map make_summary_source summaries,
           summaries_used = length summaries \<rparr>"
  unfolding summary_answer_query_def Let_def search_summaries_resolved assms(1)
  using assms(2) by (simp split: sum.splits)

lemma search_summaries_well_formed:
  assumes "embed w query = Inr q" and "summaries_table w = Inr summaries"
      and "list_all (well_formed sum_embedding q) (filter (Not \<circ> is_overview) summaries)"
  shows "search_summaries w cfg query top_k_opt =
     Inr (filter is_overview summaries @
          map snd (py_slice_to
            (sort_by_score (sort_order_with_nan w)
               (map (\<lambda>s. (computed_score sum_embedding (np_cosine w) q s, s))
                              (filter (Not \<circ> is_overview) summaries)))
            (min ((case top_k_opt of None \<Rightarrow> SUMMARY_TOP_K cfg | Some k \<Rightarrow> k)
                    - int (length (filter is_overview summaries)))
                 (int (length (sort_by_score (sort_order_with_nan w)
                    (map (\<lambda>s. (computed_score sum_embedding (np_cosine w) q s, s))
                              (filter (Not \<circ> is_overview) summaries))))))))"
proof (cases "summaries = []")
  case True
  with assms show ?thesis by (simp add: search_summaries_def py_slice_to_def sort_by_score_def)
next
  case False
  have cs: "compute_similarities sum_embedding (np_cosine w) q
              (filter (Not \<circ> is_overview) summaries) =
            Inr (map (\<lambda>s. (computed_score sum_embedding (np_cosine w) q s, s))
                   (filter (Not \<circ> is_overview) summaries))"
    by (rule compute_similarities_well_formed [OF assms(3)])
  from False assms(1,2) show ?thesis
    by (simp add: search_summaries_def Let_def cs)
qed

lemma search_summaries_within_budget:
  assumes "embed w query = Inr q" and "summaries_table w = Inr summaries"
      and "list_all (well_formed sum_embedding q) (filter (Not \<circ> is_overview) summaries)"
      and "\<forall>s \<in> set (filter (Not \<circ> is_overview) summaries).
             computed_score sum_embedding (np_cosine w) q s \<noteq> None"
      and "int (length (filter is_overview summaries)) \<le> k"
  shows "search_summaries w cfg query (Some k) =
     Inr (filter is_overview summaries @
          map snd (take (nat (k - int (length (filter is_overview summaries))))
            (sort_by_score (sort_order_with_nan w)
               (map (\<lambda>s. (computed_score sum_embedding (np_cosine w) q s, s))
                              (filter (Not \<circ> is_overview) summaries)))))"
proof -
  let ?S = "sort_by_score (sort_order_with_nan w)
              (map (\<lambda>s. (computed_score sum_embedding (np_cosine w) q s, s))
                              (filter (Not \<circ> is_overview) summaries))"
  let ?m = "k - int (length (filter is_overview summaries))"
  let ?n = "int (length ?S)"
  have "py_slice_to ?S (min ?m ?n) = take (nat (min ?m ?n)) ?S"
    using assms(5) by (simp add: py_slice_to_def)
  also have "\<dots> = take (nat ?m) ?S"
  proof (cases "?m \<le> ?n")
    case True
    then show ?thesis by (simp add: min_def)
  next
    case False
    then have "nat ?n \<le> nat ?m" by simp
    then show ?thesis using False by (simp add: min_def)
  qed
  finally show ?thesis
    unfolding search_summaries_well_formed [OF assms(1-3)] by simp
qed

lemma overview_heavy_partition:
  "filter is_overview overview_heavy_summaries =
     [mk_summary ''page_1_summary'' 1 ''Overview'' [0, 1],
      mk_summary ''page_3_summary'' 3 ''Overview'' [0, 1]]
   \<and> filter (Not \<circ> is_overview) overview_heavy_summaries =
     [mk_summary ''page_2_summary'' 2 ''Details'' [0, 1],
      mk_summary ''page_4_summary'' 4 ''Details'' [1, 0],
      mk_summary ''page_5_summary'' 5 ''Details'' [-1, 0]]"
  by (simp add: overview_heavy_summaries_def is_overview_def summary_page_type_def
      summary_metadata_def mk_summary_def)

lemma overview_heavy_well_formed:
  "list_all (well_formed sum_embedding [1, 0]) (filter (Not \<circ> is_overview) overview_heavy_summaries)"
  unfolding overview_heavy_partition [THEN conjunct2]
  by (simp add: well_formed_def mk_summary_def)

lemma overview_heavy_search:
  "search_summaries (summary_env overview_heavy_summaries) default_config query (Some 1) =
     Inr [mk_summary ''page_1_summary'' 1 ''Overview'' [0, 1],
          mk_summary ''page_3_summary'' 3 ''Overview'' [0, 1],
          mk_summary ''page_4_summary'' 4 ''Details'' [1, 0],
          mk_summary ''page_2_summary'' 2 ''Details'' [0, 1]]"
proof -
  have e: "embed (summary_env overview_heavy_summaries) query = Inr [1, 0]"
    by (simp add: summary_env_def example_env_def)
  have t: "summaries_table (summary_env overview_heavy_summaries) = Inr overview_heavy_summaries"
    by (simp add: summary_env_def)
  show ?thesis
    unfolding search_summaries_well_formed [OF e t overview_heavy_well_formed]
      overview_heavy_partition [THEN conjunct1] overview_heavy_partition [THEN conjunct2]
    by (simp add: summary_env_def example_env_def computed_score_def exact_cosine_def
        mk_summary_def dot_def norm2_def sort_by_score_def py_slice_to_def)
qed




text \<open>
  Claim C2 at an input where the code departs from it. The table holds two Overview rows
  and three Details rows and the requested total is 1, so the Overview rows alone exceed
  it. \<open>num_others\<close> is \<open>min(1 - 2, 3) = -1\<close> and \<open>similarities[:-1]\<close> keeps the two
  best-ranked Details rows, where the claim has none.
\<close>

theorem overview_surplus_keeps_ranked_others:
  "(1::int) \<le> int (length (filter is_overview overview_heavy_summaries))
   \<and> search_summaries (summary_env overview_heavy_summaries) default_config
        ''Summarize the claim.'' (Some 1) =
       Inr [mk_summary ''page_1_summary'' 1 ''Overview'' [0, 1],
            mk_summary ''page_3_summary'' 3 ''Overview'' [0, 1],
            mk_summary ''page_4_summary'' 4 ''Details'' [1, 0],
            mk_summary ''page_2_summary'' 2 ''Details'' [0, 1]]
   \<and> \<not> is_overview (mk_summary ''page_4_summary'' 4 ''Details'' [1, 0])
   \<and> \<not> is_overview (mk_summary ''page_2_summary'' 2 ''Details'' [0, 1])"
  unfolding overview_heavy_search overview_heavy_partition [THEN conjunct1]
  by (simp add: is_overview_def summary_page_type_def summary_metadata_def mk_summary_def)


section \<open>Generation failures\<close>

lemma search_chunks_llm: "search_chunks (w\<lparr> needle_llm := g \<rparr>) cfg query k = search_chunks w cfg query k"
proof -
  have e: "embed (w\<lparr> needle_llm := g \<rparr>) = embed w"
    and t: "chunks_table (w\<lparr> needle_llm := g \<rparr>) = chunks_table w"
    and c: "np_cosine (w\<lparr> needle_llm := g \<rparr>) = np_cosine w"
    and n: "sort_order_with_nan (w\<lparr> needle_llm := g \<rparr>) = sort_order_with_nan w"
    by simp_all
  show ?thesis unfolding search_chunks_def e t c n by (rule refl)
qed

lemma search_summaries_llm:
  "search_summaries (w\<lparr> summary_llm := g \<rparr>) cfg query k = search_summaries w cfg query k"
proof -
  have e: "embed (w\<lparr> summary_llm := g \<rparr>) = embed w"
    and t: "summaries_table (w\<lparr> summary_llm := g \<rparr>) = summaries_table w"
    and c: "np_cosine (w\<lparr> summary_llm := g \<rparr>) = np_cosine w"
    and n: "sort_order_with_nan (w\<lparr> summary_llm := g \<rparr>) = sort_order_with_nan w"
    by simp_all
  show ?thesis unfolding search_summaries_def e t c n by (rule refl)
qed

text \<open>
  Claim C6. In both engines, when retrieval gave at least one unit, the run in which the
  generation call raises and the run in which it returns the reply \<open>a\<close> both return an
  answer object; the failing run carries the fixed failure message as its answer, and its
  sources and counts (\<open>chunks_used\<close> and \<open>parent_pages_used\<close>, or \<open>summaries_used\<close>) are
  those of the successful run.
\<close>

theorem generation_failure_keeps_retrieval:
  "(search_chunks w cfg query k = Inr chunks \<and> chunks \<noteq> [] \<longrightarrow>
      (\<exists>rf r. needle_answer_query (w\<lparr> needle_llm := (\<lambda>p. Inl e) \<rparr>) cfg query k use T_opt = Inr rf
            \<and> needle_answer_query (w\<lparr> needle_llm := (\<lambda>p. Inr a) \<rparr>) cfg query k use T_opt = Inr r
            \<and> answer r = a
            \<and> answer rf = generation_failed_message
            \<and> sources rf = sources r
            \<and> chunks_used rf = chunks_used r
            \<and> parent_pages_used rf = parent_pages_used r))
   \<and> (search_summaries w cfg query k' = Inr summaries \<and> summaries \<noteq> [] \<longrightarrow>
      (\<exists>rf r. summary_answer_query (w\<lparr> summary_llm := (\<lambda>p. Inl e) \<rparr>) cfg query k' = Inr rf
            \<and> summary_answer_query (w\<lparr> summary_llm := (\<lambda>p. Inr a) \<rparr>) cfg query k' = Inr r
            \<and> summary_answer r = a
            \<and> summary_answer rf = generation_failed_message
            \<and> summary_sources rf = summary_sources r
            \<and> summaries_used rf = summaries_used r))"
proof (intro conjI impI)
  assume h: "search_chunks w cfg query k = Inr chunks \<and> chunks \<noteq> []"
  then have s: "search_chunks (w\<lparr> needle_llm := g \<rparr>) cfg query k = Inr chunks" for g
    by (simp add: search_chunks_llm)
  from h have ne: "chunks \<noteq> []" by simp
  show "\<exists>rf r. needle_answer_query (w\<lparr> needle_llm := (\<lambda>p. Inl e) \<rparr>) cfg query k use T_opt = Inr rf
            \<and> needle_answer_query (w\<lparr> needle_llm := (\<lambda>p. Inr a) \<rparr>) cfg query k use T_opt = Inr r
            \<and> answer r = a
            \<and> answer rf = generation_failed_message
            \<and> sources rf = sources r
            \<and> chunks_used rf = chunks_used r
            \<and> parent_pages_used rf = parent_pages_used r"
    unfolding needle_answer_query_found [OF s ne] by simp
next
  assume h: "search_summaries w cfg query k' = Inr summaries \<and> summaries \<noteq> []"
  then have s: "search_summaries (w\<lparr> summary_llm := g \<rparr>) cfg query k' = Inr summaries" for g
    by (simp add: search_summaries_llm)
  from h have ne: "summaries \<noteq> []" by simp
  show "\<exists>rf r. summary_answer_query (w\<lparr> summary_llm := (\<lambda>p. Inl e) \<rparr>) cfg query k' = Inr rf
            \<and> summary_answer_query (w\<lparr> summary_llm := (\<lambda>p. Inr a) \<rparr>) cfg query k' = Inr r
            \<and> summary_answer r = a
            \<and> summary_answer rf = generation_failed_message
            \<and> summary_sources rf = summary_sources r
            \<and> summaries_used rf = summaries_used r"
    unfolding summary_answer_query_found [OF s ne] by simp
qed

text \<open>The theorem on the example retrieval of each engine.\<close>

theorem generation_failure_keeps_retrieval_witness:
  "search_chunks (example_env example_docstore) default_config ''When?'' None = Inr example_chunks
   \<and> example_chunks \<noteq> []
   \<and> (\<exists>rf r. needle_answer_query
                ((example_env example_docstore)\<lparr> needle_llm := (\<lambda>p. Inl GenerationError) \<rparr>)
                default_config ''When?'' None True None = Inr rf
            \<and> needle_answer_query
                ((example_env example_docstore)\<lparr> needle_llm := (\<lambda>p. Inr ''At noon.'') \<rparr>)
                default_config ''When?'' None True None = Inr r
            \<and> answer r = ''At noon.''
            \<and> answer rf = generation_failed_message
            \<and> sources rf = sources r
            \<and> chunks_used rf = chunks_used r
            \<and> parent_pages_used rf = parent_pages_used r)
   \<and> search_summaries (summary_env overview_heavy_summaries) default_config ''When?'' (Some 1) =
       Inr [mk_summary ''page_1_summary'' 1 ''Overview'' [0, 1],
            mk_summary ''page_3_summary'' 3 ''Overview'' [0, 1],
            mk_summary ''page_4_summary'' 4 ''Details'' [1, 0],
            mk_summary ''page_2_summary'' 2 ''Details'' [0, 1]]
   \<and> (\<exists>rf r. summary_answer_query
                ((summary_env overview_heavy_summaries)\<lparr> summary_llm := (\<lambda>p. Inl GenerationError) \<rparr>)
                default_config ''When?'' (Some 1) = Inr rf
            \<and> summary_answer_query
                ((summary_env overview_heavy_summaries)\<lparr> summary_llm := (\<lambda>p. Inr ''At noon.'') \<rparr>)
                default_config ''When?'' (Some 1) = Inr r
            \<and> summary_answer r = ''At noon.''
            \<and> summary_answer rf = generation_failed_message
            \<and> summary_sources rf = summary_sources r
            \<and> summaries_used rf = summaries_used r)"
proof -
  have h1: "search_chunks (example_env example_docstore) default_config ''When?'' None
              = Inr example_chunks \<and> example_chunks \<noteq> []"
    by (simp add: example_search) (simp add: example_chunks_def)
  have h2: "search_summaries (summary_env overview_heavy_summaries) default_config ''When?'' (Some 1) =
       Inr [mk_summary ''page_1_summary'' 1 ''Overview'' [0, 1],
            mk_summary ''page_3_summary'' 3 ''Overview'' [0, 1],
            mk_summary ''page_4_summary'' 4 ''Details'' [1, 0],
            mk_summary ''page_2_summary'' 2 ''Details'' [0, 1]]
     \<and> [mk_summary ''page_1_summary'' 1 ''Overview'' [0, 1],
            mk_summary ''page_3_summary'' 3 ''Overview'' [0, 1],
            mk_summary ''page_4_summary'' 4 ''Details'' [1, 0],
            mk_summary ''page_2_summary'' 2 ''Details'' [0, 1]] \<noteq> []"
    by (simp add: overview_heavy_search)
  from generation_failure_keeps_retrieval
         [where w = "example_env example_docstore" and cfg = default_config
            and query = "''When?''" and k = None and chunks = example_chunks
            and e = GenerationError and a = "''At noon.''" and use = True and T_opt = None,
          THEN conjunct1]
       generation_failure_keeps_retrieval
         [where w = "summary_env overview_heavy_summaries" and cfg = default_config
            and query = "''When?''" and k' = "Some 1" and e = GenerationError
            and a = "''At noon.''"
            and summaries = "[mk_summary ''page_1_summary'' 1 ''Overview'' [0, 1],
            mk_summary ''page_3_summary'' 3 ''Overview'' [0, 1],
            mk_summary ''page_4_summary'' 4 ''Details'' [1, 0],
            mk_summary ''page_2_summary'' 2 ''Details'' [0, 1]]",
          THEN conjunct2]
       h1 h2
  show ?thesis by blast
qed


section \<open>Properties of the router\<close>

text \<open>
  Claim C7. \<open>route\<close> always returns a label, never an error: "summary" when the reply of
  the classifier, stripped and in upper case, is "SUMMARY", and "needle" otherwise, that
  is for the reply "NEEDLE", for any other reply and for an exception of the call.
\<close>

theorem route_label:
  "route w query =
     Inr (case router_llm w query of
            Inl e \<Rightarrow> ''needle''
          | Inr content \<Rightarrow>
              if upper (strip content) = ''SUMMARY'' then ''summary'' else ''needle'')
   \<and> route w query \<in> {Inr ''summary'', Inr ''needle''}"
proof -
  have l1: "lower ''SUMMARY'' = ''summary''" and l2: "lower ''NEEDLE'' = ''needle''"
    by code_simp+
  have "route w query =
     Inr (case router_llm w query of
            Inl e \<Rightarrow> ''needle''
          | Inr content \<Rightarrow>
              if upper (strip content) = ''SUMMARY'' then ''summary'' else ''needle'')"
    by (auto simp: route_def route_try_def Let_def l1 l2 split: sum.splits)
  then show ?thesis by (auto split: sum.splits)
qed

text \<open>The theorem on a padded lower-case reply, an unexpected reply and a failing call.\<close>

theorem route_label_witness:
  "route (router_env (Inr ''  summary '')) ''Give me an overview.'' = Inr ''summary''
   \<and> route (router_env (Inr ''maybe'')) ''What time?'' = Inr ''needle''
   \<and> route (router_env (Inl GenerationError)) ''What time?'' = Inr ''needle''"
proof -
  have u1: "upper (strip ''  summary '') = ''SUMMARY''" by code_simp
  have u2: "upper (strip ''maybe'') \<noteq> ''SUMMARY''" by code_simp
  from route_label [of "router_env (Inr ''  summary '')" "''Give me an overview.''"]
       route_label [of "router_env (Inr ''maybe'')" "''What time?''"]
       route_label [of "router_env (Inl GenerationError)" "''What time?''"]
  show ?thesis by (simp add: router_env_def u1 u2)
qed

lemma route_examples:
  "route (router_env (Inr ''  summary '')) ''Give me an overview.'' = Inr ''summary''"
  "route (router_env (Inr ''Needle'')) ''What time?'' = Inr ''needle''"
  "route (router_env (Inr ''I think SUMMARY'')) ''What happened?'' = Inr ''needle''"
  "route (router_env (Inl GenerationError)) ''What happened?'' = Inr ''needle''"
proof -
  have u: "upper (strip ''  summary '') = ''SUMMARY''"
      "upper (strip ''Needle'') = ''NEEDLE''"
      "upper (strip ''I think SUMMARY'') = ''I THINK SUMMARY''"
    by code_simp+
  have l: "lower ''SUMMARY'' = ''summary''" "lower ''NEEDLE'' = ''needle''"
    by code_simp+
  show "route (router_env (Inr ''  summary '')) ''Give me an overview.'' = Inr ''summary''"
    by (simp add: route_def route_try_def router_env_def u l)
  show "route (router_env (Inr ''Needle'')) ''What time?'' = Inr ''needle''"
    by (simp add: route_def route_try_def router_env_def u l)
  show "route (router_env (Inr ''I think SUMMARY'')) ''What happened?'' = Inr ''needle''"
    by (simp add: route_def route_try_def router_env_def u l)
  show "route (router_env (Inl GenerationError)) ''What happened?'' = Inr ''needle''"
    by (simp add: route_def route_try_def router_env_def)
qed

end
